theory Spec2Isabelle
  imports Complex_Main "HOL-Library.Sublist"
begin

section \<open>Strings and parsed JSON values\<close>

text \<open>
  The worker is TypeScript. A string of the program is modelled as a \<open>string\<close>: the
  list of the bytes of its UTF-8 encoding, so that an ASCII character is one byte below
  0x80 and every other character is a sequence of two to four bytes from 0x80 on.
  Where the source counts characters (the \<^verbatim>\<open>slice(0, 500)\<close> of a reply quoted in an
  error message) the model counts bytes, which is the same on ASCII text.
  SQLite compares TEXT with the BINARY collation, which is equality of strings, and its
  \<^verbatim>\<open>LOWER\<close> maps ASCII letters only.
\<close>

text \<open>
  \<^verbatim>\<open>String.prototype.trim\<close> removes white space and line terminators from both ends.
  \<open>white_space\<close> lists them by their encodings: U+0009 to U+000D, U+0020, U+00A0,
  U+1680, U+2000 to U+200A, U+2028, U+2029, U+202F, U+205F, U+3000 and U+FEFF.
  \<open>strip\<close> removes the listed sequences from the front for as long as one is there;
  \<open>trim\<close> does so at both ends (no listed sequence ends another character's encoding,
  so matching the reversed sequences on the reversed text removes the trailing ones).
\<close>

definition white_space :: "string list" where
  "white_space =
     [[CHR 0x09], [CHR 0x0A], [CHR 0x0B], [CHR 0x0C], [CHR 0x0D], [CHR 0x20],
      [CHR 0xC2, CHR 0xA0], [CHR 0xE1, CHR 0x9A, CHR 0x80],
      [CHR 0xE2, CHR 0x80, CHR 0x80], [CHR 0xE2, CHR 0x80, CHR 0x81],
      [CHR 0xE2, CHR 0x80, CHR 0x82], [CHR 0xE2, CHR 0x80, CHR 0x83],
      [CHR 0xE2, CHR 0x80, CHR 0x84], [CHR 0xE2, CHR 0x80, CHR 0x85],
      [CHR 0xE2, CHR 0x80, CHR 0x86], [CHR 0xE2, CHR 0x80, CHR 0x87],
      [CHR 0xE2, CHR 0x80, CHR 0x88], [CHR 0xE2, CHR 0x80, CHR 0x89],
      [CHR 0xE2, CHR 0x80, CHR 0x8A], [CHR 0xE2, CHR 0x80, CHR 0xA8],
      [CHR 0xE2, CHR 0x80, CHR 0xA9], [CHR 0xE2, CHR 0x80, CHR 0xAF],
      [CHR 0xE2, CHR 0x81, CHR 0x9F], [CHR 0xE3, CHR 0x80, CHR 0x80],
      [CHR 0xEF, CHR 0xBB, CHR 0xBF]]"

fun strip :: "string list \<Rightarrow> string \<Rightarrow> string" where
  "strip ws [] = []"
| "strip ws (c # cs) =
     (case find (\<lambda>w. prefix w (c # cs)) ws of
        None \<Rightarrow> c # cs
      | Some w \<Rightarrow> strip ws (drop (length w - 1) cs))"

definition trim :: "string \<Rightarrow> string" where
  "trim s = rev (strip (map rev white_space) (rev (strip white_space s)))"

text \<open>
  The case mappings of the ASCII letters, one byte each.
\<close>

definition upper_char :: "char \<Rightarrow> char" where
  "upper_char c =
     (case map_of (zip ''abcdefghijklmnopqrstuvwxyz'' ''ABCDEFGHIJKLMNOPQRSTUVWXYZ'') c of
        Some u \<Rightarrow> u
      | None \<Rightarrow> c)"

definition lower_char :: "char \<Rightarrow> char" where
  "lower_char c =
     (case map_of (zip ''ABCDEFGHIJKLMNOPQRSTUVWXYZ'' ''abcdefghijklmnopqrstuvwxyz'') c of
        Some l \<Rightarrow> l
      | None \<Rightarrow> c)"

text \<open>
  \<^verbatim>\<open>String.prototype.toUpperCase\<close> maps character by character, and some characters
  outside ASCII have an upper-case form made of ASCII letters. \<open>upper_sequences\<close> lists
  all of them with their encodings: U+00DF (sharp s) gives SS, U+0131 (dotless i) gives
  I, U+017F (long s) gives S, and the ligatures U+FB00 to U+FB06 give FF, FI, FL, FFI,
  FFL, ST and ST. \<open>toUpperCase\<close> maps these and the ASCII letters. The source only
  compares the result with words of ASCII letters, so the upper-case forms of the other
  characters, in which a character outside ASCII remains, are not modelled: their bytes
  are left as they are.
\<close>

definition upper_sequences :: "(string \<times> string) list" where
  "upper_sequences =
     [([CHR 0xC3, CHR 0x9F], ''SS''), ([CHR 0xC4, CHR 0xB1], ''I''),
      ([CHR 0xC5, CHR 0xBF], ''S''),
      ([CHR 0xEF, CHR 0xAC, CHR 0x80], ''FF''), ([CHR 0xEF, CHR 0xAC, CHR 0x81], ''FI''),
      ([CHR 0xEF, CHR 0xAC, CHR 0x82], ''FL''), ([CHR 0xEF, CHR 0xAC, CHR 0x83], ''FFI''),
      ([CHR 0xEF, CHR 0xAC, CHR 0x84], ''FFL''), ([CHR 0xEF, CHR 0xAC, CHR 0x85], ''ST''),
      ([CHR 0xEF, CHR 0xAC, CHR 0x86], ''ST'')]"

fun toUpperCase :: "string \<Rightarrow> string" where
  "toUpperCase [] = []"
| "toUpperCase (c # cs) =
     (case find (\<lambda>(k, u). prefix k (c # cs)) upper_sequences of
        Some (k, u) \<Rightarrow> u @ toUpperCase (drop (length k - 1) cs)
      | None \<Rightarrow> upper_char c # toUpperCase cs)"

text \<open>
  \<open>toLowerCase\<close> maps the letters A to Z and leaves every other byte as it is; this is
  \<^verbatim>\<open>LOWER\<close> of SQLite, and \<^verbatim>\<open>String.prototype.toLowerCase\<close> on ASCII text.
\<close>

definition toLowerCase :: "string \<Rightarrow> string" where
  "toLowerCase s = map lower_char s"

text \<open>A string of ASCII characters: no byte has its top bit set.\<close>

definition ascii :: "string \<Rightarrow> bool" where
  "ascii s = list_all (\<lambda>c. \<not> digit7 c) s"

text \<open>\<^verbatim>\<open>haystack.includes(needle)\<close>: the needle occurs as a contiguous run.\<close>

fun str_includes :: "string \<Rightarrow> string \<Rightarrow> bool" where
  "str_includes [] needle = (needle = [])"
| "str_includes (c # cs) needle = (prefix needle (c # cs) \<or> str_includes cs needle)"

text \<open>
  A value produced by \<^verbatim>\<open>JSON.parse\<close>. Numbers are doubles in the source; the code under
  study only tests them with \<^verbatim>\<open>typeof\<close> and passes them on, so they are modelled as
  rationals. An object is the list of its members in textual order; a later member
  with the same key replaces an earlier one, as \<^verbatim>\<open>JSON.parse\<close> does.
\<close>

datatype json =
    JNull
  | JBool bool
  | JNum rat
  | JStr string
  | JArr "json list"
  | JObj "(string \<times> json) list"

text \<open>
  What a handler can throw. \<open>AppError status code message\<close> is the class of
  \<^verbatim>\<open>errors.ts\<close>; \<open>SqliteError\<close> is the \<^verbatim>\<open>Error\<close> the store raises when a constraint
  rejects a statement; \<open>TypeError\<close> is raised by the engine (its wording depends on the
  engine, the text kept here only names the failed operation); \<open>NonError\<close> stands
  for a thrown value that is not an instance of \<^verbatim>\<open>Error\<close>.
\<close>

datatype constraint = UNIQUE | CHECK | FOREIGN_KEY | NOT_NULL

datatype exn =
    AppError nat string string
  | Error string
  | TypeError string
  | SqliteError constraint string
  | NonError

fun constraint_name :: "constraint \<Rightarrow> string" where
  "constraint_name UNIQUE = ''UNIQUE''"
| "constraint_name CHECK = ''CHECK''"
| "constraint_name FOREIGN_KEY = ''FOREIGN KEY''"
| "constraint_name NOT_NULL = ''NOT NULL''"

text \<open>\<^verbatim>\<open>err instanceof Error\<close> and \<^verbatim>\<open>err.message\<close>.\<close>

fun instanceof_Error :: "exn \<Rightarrow> bool" where
  "instanceof_Error NonError = False"
| "instanceof_Error _ = True"

fun message :: "exn \<Rightarrow> string" where
  "message (AppError status code msg) = msg"
| "message (Error msg) = msg"
| "message (TypeError msg) = msg"
| "message (SqliteError c detail) = constraint_name c @ '' constraint failed'' @ detail"
| "message NonError = []"

text \<open>
  Property access \<^verbatim>\<open>v.k\<close> on a parsed JSON value, for the property names the normalizer
  reads (none of them is a property of a JavaScript string, number, boolean or array):
  reading a property of \<^verbatim>\<open>null\<close> throws, an object yields the member or
  \<^verbatim>\<open>undefined\<close> (\<open>None\<close>), anything else yields \<^verbatim>\<open>undefined\<close>.
\<close>

fun get_prop :: "json \<Rightarrow> string \<Rightarrow> exn + json option" where
  "get_prop JNull k = Inl (TypeError (''Cannot read properties of null (reading '' @ k @ '')''))"
| "get_prop (JObj kvs) k = Inr (map_of (rev kvs) k)"
| "get_prop v k = Inr None"

text \<open>\<^verbatim>\<open>x ?? d\<close>: the default replaces \<^verbatim>\<open>undefined\<close> and \<^verbatim>\<open>null\<close> only.\<close>

fun nullish :: "json option \<Rightarrow> json \<Rightarrow> json" where
  "nullish None d = d"
| "nullish (Some JNull) d = d"
| "nullish (Some v) d = v"

text \<open>\<^verbatim>\<open>typeof x === 'number' ? x : d\<close>, with the result an optional number.\<close>

fun number_or :: "json option \<Rightarrow> 'a \<Rightarrow> (rat \<Rightarrow> 'a) \<Rightarrow> 'a" where
  "number_or (Some (JNum n)) d f = f n"
| "number_or v d f = d"

text \<open>
  \<^verbatim>\<open>(x ?? '').trim()\<close>: a string is trimmed, a missing value gives the empty string, and
  any other value has no \<^verbatim>\<open>trim\<close> method, so the call throws.
\<close>

definition trim_or_empty :: "string \<Rightarrow> json option \<Rightarrow> exn + string" where
  "trim_or_empty what x =
     (case nullish x (JStr []) of
        JStr s \<Rightarrow> Inr (trim s)
      | _ \<Rightarrow> Inl (TypeError (what @ ''.trim is not a function'')))"

text \<open>
  \<^verbatim>\<open>(x ?? []).map(f)\<close>: only an array has \<^verbatim>\<open>map\<close>; the callback's first throw ends
  the loop.
\<close>

fun map_throwing :: "('a \<Rightarrow> exn + 'b) \<Rightarrow> 'a list \<Rightarrow> exn + 'b list" where
  "map_throwing f [] = Inr []"
| "map_throwing f (x # xs) =
     (case f x of
        Inl e \<Rightarrow> Inl e
      | Inr y \<Rightarrow> (case map_throwing f xs of Inl e \<Rightarrow> Inl e | Inr ys \<Rightarrow> Inr (y # ys)))"

definition array_or_empty_map ::
  "string \<Rightarrow> json option \<Rightarrow> (json \<Rightarrow> exn + 'b) \<Rightarrow> exn + 'b list" where
  "array_or_empty_map what x f =
     (case nullish x (JArr []) of
        JArr entries \<Rightarrow> map_throwing f entries
      | _ \<Rightarrow> Inl (TypeError (what @ ''.map is not a function'')))"

section \<open>The normalizer (claude-vision.ts)\<close>

record OcrAttendanceEntry =
  oa_name :: string
  oa_table_number :: "rat option"
  oa_seat :: "string option"
  oa_is_checked :: json
  oa_confidence :: rat

record OcrMailingListEntry =
  om_name :: string
  om_email :: string
  om_confidence :: rat

record OcrResult =
  or_qr_data :: json
  or_form_type :: string
  or_attendance :: "OcrAttendanceEntry list"
  or_mailing_list :: "OcrMailingListEntry list"
  or_confidence :: rat
  or_notes :: json

definition normalizeSeat :: "json option \<Rightarrow> string option" where
  "normalizeSeat seat =
     (case seat of
        Some (JStr s) \<Rightarrow>
          (let upper = toUpperCase (trim s) in
           if upper = ''NORTH'' then Some ''N''
           else if upper = ''SOUTH'' then Some ''S''
           else if upper = ''EAST'' then Some ''E''
           else if upper = ''WEST'' then Some ''W''
           else if upper \<in> set [''N'', ''S'', ''E'', ''W''] then Some upper
           else None)
      | _ \<Rightarrow> None)"

text \<open>The callback of the first \<^verbatim>\<open>map\<close>: one attendance entry.\<close>

definition attendance_entry :: "json \<Rightarrow> exn + OcrAttendanceEntry" where
  "attendance_entry entry =
     (case get_prop entry ''name'' of
        Inl e \<Rightarrow> Inl e
      | Inr name \<Rightarrow>
          (case trim_or_empty ''entry.name'' name of
             Inl e \<Rightarrow> Inl e
           | Inr trimmed \<Rightarrow>
               Inr \<lparr> oa_name = trimmed,
                     oa_table_number =
                       number_or (projr (get_prop entry ''table_number'')) None Some,
                     oa_seat = normalizeSeat (projr (get_prop entry ''seat'')),
                     oa_is_checked = nullish (projr (get_prop entry ''is_checked'')) JNull,
                     oa_confidence =
                       number_or (projr (get_prop entry ''confidence'')) (1 / 2) (\<lambda>n. n) \<rparr>))"

text \<open>The callback of the second \<^verbatim>\<open>map\<close>: one mailing-list entry.\<close>

definition mailing_entry :: "json \<Rightarrow> exn + OcrMailingListEntry" where
  "mailing_entry entry =
     (case get_prop entry ''name'' of
        Inl e \<Rightarrow> Inl e
      | Inr name \<Rightarrow>
          (case trim_or_empty ''entry.name'' name of
             Inl e \<Rightarrow> Inl e
           | Inr trimmed \<Rightarrow>
               (case trim_or_empty ''entry.email'' (projr (get_prop entry ''email'')) of
                  Inl e \<Rightarrow> Inl e
                | Inr email \<Rightarrow>
                    Inr \<lparr> om_name = trimmed,
                          om_email = toLowerCase email,
                          om_confidence =
                            number_or (projr (get_prop entry ''confidence'')) (1 / 2) (\<lambda>n. n) \<rparr>)))"

text \<open>
  \<^verbatim>\<open>validateOcrResult\<close>. The fields of the object literal are evaluated in order, so the
  first property read (\<^verbatim>\<open>raw.qr_data\<close>) is where a \<^verbatim>\<open>null\<close> input throws; once an
  entry's \<^verbatim>\<open>name\<close> has been read the entry is not \<^verbatim>\<open>null\<close> and its later reads
  cannot throw (\<open>projr\<close> is applied to an \<open>Inr\<close> there).
\<close>

definition validateOcrResult :: "json \<Rightarrow> exn + OcrResult" where
  "validateOcrResult raw =
     (case get_prop raw ''qr_data'' of
        Inl e \<Rightarrow> Inl e
      | Inr qr \<Rightarrow>
          (case array_or_empty_map ''raw.attendance'' (projr (get_prop raw ''attendance''))
                  attendance_entry of
             Inl e \<Rightarrow> Inl e
           | Inr att \<Rightarrow>
               (case array_or_empty_map ''raw.mailing_list'' (projr (get_prop raw ''mailing_list''))
                       mailing_entry of
                  Inl e \<Rightarrow> Inl e
                | Inr ml \<Rightarrow>
                    Inr \<lparr> or_qr_data = nullish qr JNull,
                          or_form_type =
                            (if projr (get_prop raw ''form_type'') = Some (JStr ''roster'')
                             then ''roster'' else ''blank''),
                          or_attendance = filter (\<lambda>e. length (oa_name e) > 0) att,
                          or_mailing_list =
                            filter (\<lambda>e. length (om_name e) > 0 \<and> length (om_email e) > 0) ml,
                          or_confidence =
                            number_or (projr (get_prop raw ''confidence'')) (1 / 2) (\<lambda>n. n),
                          or_notes = nullish (projr (get_prop raw ''notes'')) (JStr []) \<rparr>)))"

text \<open>
  The seat rule in the specification's words, for comparison with \<open>normalizeSeat\<close>:
  matching is case-insensitive, the full words map to their letters, the single letters
  pass through, anything else is null. Two strings are equal up to letter case when their
  lower-case forms are equal.
\<close>

definition eq_ignore_case :: "string \<Rightarrow> string \<Rightarrow> bool" where
  "eq_ignore_case a b = (toLowerCase a = toLowerCase b)"

definition seat_spec :: "string \<Rightarrow> string option" where
  "seat_spec w =
     (if eq_ignore_case w ''north'' \<or> eq_ignore_case w ''n'' then Some ''N''
      else if eq_ignore_case w ''south'' \<or> eq_ignore_case w ''s'' then Some ''S''
      else if eq_ignore_case w ''east'' \<or> eq_ignore_case w ''e'' then Some ''E''
      else if eq_ignore_case w ''west'' \<or> eq_ignore_case w ''w'' then Some ''W''
      else None)"

section \<open>The store (schema.sql, queries.ts)\<close>

text \<open>
  One record per table, a field per column. The \<^verbatim>\<open>created_at\<close> columns, which the
  store fills from its clock and none of the operations below reads, are left out.
  A table is the list of its rows in insertion order; \<^verbatim>\<open>.first()\<close> of a query returns
  the first matching row of that list.
\<close>

record EventRow =
  e_id :: string
  e_name :: string
  e_date :: string
  e_teacher :: string
  e_location :: string
  e_type :: string

record StudentRow =
  s_id :: string
  s_name :: string
  s_email :: "string option"
  s_photo_url :: "string option"
  s_first_event_id :: "string option"

record AttendanceRow =
  a_id :: string
  a_event_id :: string
  a_student_id :: string
  a_table_number :: "rat option"
  a_seat :: "string option"
  a_source :: string

record AttendanceWithStudent = AttendanceRow +
  student_name :: string
  student_email :: "string option"

record MailingListRow =
  ml_id :: string
  ml_name :: string
  ml_email :: string
  ml_event_id :: "string option"

record MemberRow =
  m_id :: string
  m_name :: string
  m_email :: string
  m_joined_date :: "string option"
  m_declined :: int

record OcrJobRow =
  j_id :: string
  j_event_id :: string
  j_r2_key :: string
  j_status :: string
  j_result_json :: "OcrResult option"
  j_error_message :: "string option"
  j_processed_at :: "string option"

record R2Object =
  r2_body :: string
  r2_contentType :: string

text \<open>
  The world a request runs in: the D1 tables, the R2 bucket, and the outcomes of
  \<^verbatim>\<open>crypto.randomUUID()\<close> in call order (\<open>uuid_seq\<close>, read at \<open>uuid_pos\<close>). Nothing is
  assumed of that sequence: an identifier that is already a primary key makes the
  insert fail, as it would in the store.
\<close>

record world =
  events :: "EventRow list"
  students :: "StudentRow list"
  attendance :: "AttendanceRow list"
  mailing_list :: "MailingListRow list"
  members :: "MemberRow list"
  ocr_jobs :: "OcrJobRow list"
  PHOTOS :: "string \<rightharpoonup> R2Object"
  uuid_seq :: "nat \<Rightarrow> string"
  uuid_pos :: nat

definition generateId :: "world \<Rightarrow> string \<times> world" where
  "generateId w = (uuid_seq w (uuid_pos w), w\<lparr>uuid_pos := Suc (uuid_pos w)\<rparr>)"

definition notFound :: "string \<Rightarrow> string \<Rightarrow> exn" where
  "notFound resource ident = AppError 404 ''NOT_FOUND'' (resource @ '' with ID '' @ ident @ '' not found'')"

definition badRequest :: "string \<Rightarrow> exn" where
  "badRequest msg = AppError 400 ''BAD_REQUEST'' msg"

definition conflict :: "string \<Rightarrow> exn" where
  "conflict msg = AppError 409 ''CONFLICT'' msg"

definition getEventById :: "world \<Rightarrow> string \<Rightarrow> EventRow option" where
  "getEventById w ident = find (\<lambda>e. e_id e = ident) (events w)"

definition getStudentById :: "world \<Rightarrow> string \<Rightarrow> StudentRow option" where
  "getStudentById w ident = find (\<lambda>s. s_id s = ident) (students w)"

definition getStudentByName :: "world \<Rightarrow> string \<Rightarrow> StudentRow option" where
  "getStudentByName w name = find (\<lambda>s. s_name s = name) (students w)"

definition getMailingListByEmail :: "world \<Rightarrow> string \<Rightarrow> MailingListRow option" where
  "getMailingListByEmail w email = find (\<lambda>r. ml_email r = email) (mailing_list w)"

text \<open>
  A foreign key column (\<^verbatim>\<open>REFERENCES events(id)\<close>, with \<^verbatim>\<open>PRAGMA foreign_keys = ON\<close>
  set on every request): a non-null value must be the id of a row.
\<close>

definition references_event :: "world \<Rightarrow> string option \<Rightarrow> bool" where
  "references_event w ev = (case ev of None \<Rightarrow> True | Some i \<Rightarrow> getEventById w i \<noteq> None)"

text \<open>
  \<^verbatim>\<open>insertStudent\<close>: the INSERT is rejected when the generated id is already a primary
  key or the first event is not an event; the SELECT by the new id that follows returns
  the inserted row (lemma \<open>insertStudent_selects\<close>, and likewise for the other inserts).
\<close>

definition insertStudent ::
  "world \<Rightarrow> string \<Rightarrow> string option \<Rightarrow> string option \<Rightarrow> exn + (StudentRow \<times> world)" where
  "insertStudent w name email first_event_id =
     (let (ident, w1) = generateId w;
          row = \<lparr> s_id = ident, s_name = name, s_email = email, s_photo_url = None,
                  s_first_event_id = first_event_id \<rparr>
      in if getStudentById w1 ident \<noteq> None then Inl (SqliteError UNIQUE '': students.id'')
         else if \<not> references_event w1 first_event_id then Inl (SqliteError FOREIGN_KEY [])
         else Inr (row, w1\<lparr>students := students w1 @ [row]\<rparr>))"

text \<open>Look up student by exact name; create if not found.\<close>

definition getOrCreateStudentByName ::
  "world \<Rightarrow> string \<Rightarrow> string \<Rightarrow> exn + (StudentRow \<times> world)" where
  "getOrCreateStudentByName w name eventId =
     (case getStudentByName w name of
        Some existing \<Rightarrow> Inr (existing, w)
      | None \<Rightarrow> insertStudent w name None (Some eventId))"

text \<open>
  \<^verbatim>\<open>getEventWithAttendance\<close>: the attendance rows of the event joined with their
  students. The query's ORDER BY is not modelled; the callers below only ask whether some
  row is of a given student.
\<close>

definition getEventWithAttendance ::
  "world \<Rightarrow> string \<Rightarrow> (EventRow \<times> AttendanceWithStudent list) option" where
  "getEventWithAttendance w ident =
     (case getEventById w ident of
        None \<Rightarrow> None
      | Some event \<Rightarrow>
          Some (event,
            concat (map (\<lambda>a. map (\<lambda>s. AttendanceRow.extend a
                                         \<lparr> student_name = s_name s, student_email = s_email s \<rparr>)
                                 (filter (\<lambda>s. a_student_id a = s_id s) (students w)))
                        (filter (\<lambda>a. a_event_id a = ident) (attendance w)))))"

text \<open>
  \<^verbatim>\<open>recordAttendance\<close>. The INSERT binds \<^verbatim>\<open>table_number ?? null\<close>, \<^verbatim>\<open>seat ?? null\<close>
  and \<^verbatim>\<open>source ?? 'manual'\<close>, and the table's constraints decide: the two CHECKs, the
  primary key, UNIQUE(event_id, student_id), and the two foreign keys.
\<close>

definition recordAttendance ::
  "world \<Rightarrow> string \<Rightarrow> string \<Rightarrow> rat option \<Rightarrow> string option \<Rightarrow> string option
     \<Rightarrow> exn + (AttendanceRow \<times> world)" where
  "recordAttendance w event_id student_id table_number seat source =
     (let (ident, w1) = generateId w;
          row = \<lparr> a_id = ident, a_event_id = event_id, a_student_id = student_id,
                  a_table_number = table_number, a_seat = seat,
                  a_source = (case source of None \<Rightarrow> ''manual'' | Some src \<Rightarrow> src) \<rparr>
      in if \<not> (a_seat row = None \<or> a_seat row \<in> Some ` set [''N'', ''S'', ''E'', ''W''])
         then Inl (SqliteError CHECK '': attendance'')
         else if a_source row \<notin> set [''ocr'', ''manual'', ''online'']
         then Inl (SqliteError CHECK '': attendance'')
         else if list_ex (\<lambda>a. a_id a = ident) (attendance w1)
         then Inl (SqliteError UNIQUE '': attendance.id'')
         else if list_ex (\<lambda>a. a_event_id a = event_id \<and> a_student_id a = student_id) (attendance w1)
         then Inl (SqliteError UNIQUE '': attendance.event_id, attendance.student_id'')
         else if getEventById w1 event_id = None \<or> getStudentById w1 student_id = None
         then Inl (SqliteError FOREIGN_KEY [])
         else Inr (row, w1\<lparr>attendance := attendance w1 @ [row]\<rparr>))"

text \<open>\<^verbatim>\<open>addMailingListEntry\<close>: primary key, UNIQUE(email), and the event foreign key.\<close>

definition addMailingListEntry ::
  "world \<Rightarrow> string \<Rightarrow> string \<Rightarrow> string option \<Rightarrow> exn + (MailingListRow \<times> world)" where
  "addMailingListEntry w name email event_id =
     (let (ident, w1) = generateId w;
          row = \<lparr> ml_id = ident, ml_name = name, ml_email = email, ml_event_id = event_id \<rparr>
      in if list_ex (\<lambda>r. ml_id r = ident) (mailing_list w1)
         then Inl (SqliteError UNIQUE '': mailing_list.id'')
         else if getMailingListByEmail w1 email \<noteq> None
         then Inl (SqliteError UNIQUE '': mailing_list.email'')
         else if \<not> references_event w1 event_id then Inl (SqliteError FOREIGN_KEY [])
         else Inr (row, w1\<lparr>mailing_list := mailing_list w1 @ [row]\<rparr>))"

section \<open>Responses and the global error handler (index.ts)\<close>

text \<open>
  \<open>Json status data\<close> is \<^verbatim>\<open>c.json({data}, status)\<close>. A handler that throws is answered
  by \<^verbatim>\<open>app.onError\<close>: an \<^verbatim>\<open>AppError\<close> with its own status and code, anything else with
  500. The store after a throw is not tracked: a handler yields either an exception or
  its response together with the store it leaves.
\<close>

datatype 'a response = Json nat 'a | ErrorJson nat string string

fun onError :: "exn \<Rightarrow> 'a response" where
  "onError (AppError status code msg) = ErrorJson status code msg"
| "onError err = ErrorJson 500 ''INTERNAL_ERROR'' ''An unexpected error occurred''"

definition respond :: "exn + ('a response \<times> world) \<Rightarrow> 'a response" where
  "respond outcome = (case outcome of Inl err \<Rightarrow> onError err | Inr (r, w) \<Rightarrow> r)"

section \<open>Confirm (confirm.ts)\<close>

record ConfirmAttendanceEntry =
  ca_student_name :: "string option"
  ca_table_number :: "rat option"
  ca_seat :: "string option"

record ConfirmMailingEntry =
  cm_name :: "string option"
  cm_email :: "string option"

text \<open>The request body; \<open>None\<close> for a list stands for a value that is not an array.\<close>

record ConfirmOcrBody =
  cb_attendance :: "ConfirmAttendanceEntry list option"
  cb_mailing_list :: "ConfirmMailingEntry list option"

record AttendanceResult =
  ar_student_name :: string
  ar_student_id :: string
  ar_status :: string

record MailingListResult =
  mr_name :: string
  mr_email :: string
  mr_status :: string

record 'r Counts =
  created :: nat
  skipped :: nat
  results :: "'r list"

record ConfirmData =
  cd_attendance :: "AttendanceResult Counts"
  cd_mailing_list :: "MailingListResult Counts"

text \<open>
  The \<^verbatim>\<open>else\<close> branch of the attendance loop: the insert with source \<^verbatim>\<open>'ocr'\<close>, then the
  \<^verbatim>\<open>created\<close> report. There is no \<^verbatim>\<open>try\<close> around the insert.
\<close>

definition confirm_record ::
  "world \<Rightarrow> string \<Rightarrow> ConfirmAttendanceEntry \<Rightarrow> string \<Rightarrow> StudentRow
     \<Rightarrow> exn + (AttendanceResult option \<times> world)" where
  "confirm_record w eventId entry name student =
     (case recordAttendance w eventId (s_id student) (ca_table_number entry) (ca_seat entry)
             (Some ''ocr'') of
        Inl err \<Rightarrow> Inl err
      | Inr (row, w') \<Rightarrow>
          Inr (Some \<lparr> ar_student_name = name, ar_student_id = s_id student,
                      ar_status = ''created'' \<rparr>, w'))"

text \<open>\<^verbatim>\<open>existing?.attendance.some((a) => a.student_id === student.id)\<close>\<close>

definition alreadyRecorded :: "world \<Rightarrow> string \<Rightarrow> StudentRow \<Rightarrow> bool" where
  "alreadyRecorded w eventId student =
     (case getEventWithAttendance w eventId of
        None \<Rightarrow> False
      | Some (event, att) \<Rightarrow> list_ex (\<lambda>a. a_student_id a = s_id student) att)"

text \<open>
  One turn of the attendance loop; \<open>None\<close> is the \<^verbatim>\<open>continue\<close> of an entry whose name
  is missing or blank. The report carries the name as submitted, the student is
  resolved by the trimmed name.
\<close>

definition confirm_attendance_entry ::
  "world \<Rightarrow> string \<Rightarrow> ConfirmAttendanceEntry \<Rightarrow> exn + (AttendanceResult option \<times> world)" where
  "confirm_attendance_entry w eventId entry =
     (case ca_student_name entry of
        None \<Rightarrow> Inr (None, w)
      | Some name \<Rightarrow>
          if trim name = [] then Inr (None, w)
          else
            (case getOrCreateStudentByName w (trim name) eventId of
               Inl err \<Rightarrow> Inl err
             | Inr (student, w1) \<Rightarrow>
                 if alreadyRecorded w1 eventId student
                 then Inr (Some \<lparr> ar_student_name = name, ar_student_id = s_id student,
                                  ar_status = ''skipped'' \<rparr>, w1)
                 else confirm_record w1 eventId entry name student))"

text \<open>One turn of the mailing-list loop.\<close>

definition confirm_mailing_entry ::
  "world \<Rightarrow> string \<Rightarrow> ConfirmMailingEntry \<Rightarrow> exn + (MailingListResult option \<times> world)" where
  "confirm_mailing_entry w eventId entry =
     (case (cm_name entry, cm_email entry) of
        (Some name, Some raw_email) \<Rightarrow>
          if trim name = [] \<or> trim raw_email = [] then Inr (None, w)
          else
            (let email = toLowerCase (trim raw_email) in
             case getMailingListByEmail w email of
               Some existing \<Rightarrow>
                 Inr (Some \<lparr> mr_name = name, mr_email = email, mr_status = ''skipped'' \<rparr>, w)
             | None \<Rightarrow>
                 (case addMailingListEntry w (trim name) email (Some eventId) of
                    Inl err \<Rightarrow> Inl err
                  | Inr (row, w') \<Rightarrow>
                      Inr (Some \<lparr> mr_name = name, mr_email = email,
                                  mr_status = ''created'' \<rparr>, w')))
      | _ \<Rightarrow> Inr (None, w))"

text \<open>
  A \<^verbatim>\<open>for ... of\<close> loop that pushes at most one report per entry and stops at the first
  throw.
\<close>

fun for_each ::
  "(world \<Rightarrow> 'e \<Rightarrow> exn + ('r option \<times> world)) \<Rightarrow> world \<Rightarrow> 'e list \<Rightarrow> exn + ('r list \<times> world)" where
  "for_each step w [] = Inr ([], w)"
| "for_each step w (entry # entries) =
     (case step w entry of
        Inl err \<Rightarrow> Inl err
      | Inr (r, w1) \<Rightarrow>
          (case for_each step w1 entries of
             Inl err \<Rightarrow> Inl err
           | Inr (rs, w2) \<Rightarrow> Inr ((case r of None \<Rightarrow> rs | Some x \<Rightarrow> x # rs), w2)))"

definition count_status :: "('r \<Rightarrow> string) \<Rightarrow> string \<Rightarrow> 'r list \<Rightarrow> nat" where
  "count_status status_of st rs = length (filter (\<lambda>r. status_of r = st) rs)"

text \<open>POST /api/events/:id/confirm\<close>

definition confirm ::
  "world \<Rightarrow> string \<Rightarrow> ConfirmOcrBody \<Rightarrow> exn + (ConfirmData response \<times> world)" where
  "confirm w eventId body =
     (case getEventById w eventId of
        None \<Rightarrow> Inl (notFound ''Event'' eventId)
      | Some event \<Rightarrow>
          (case cb_attendance body of
             None \<Rightarrow> Inl (badRequest ''attendance must be an array'')
           | Some attendance_entries \<Rightarrow>
               (case cb_mailing_list body of
                  None \<Rightarrow> Inl (badRequest ''mailing_list must be an array'')
                | Some mailing_entries \<Rightarrow>
                    (case for_each (\<lambda>w. confirm_attendance_entry w eventId) w attendance_entries of
                       Inl err \<Rightarrow> Inl err
                     | Inr (attendanceResults, w1) \<Rightarrow>
                         (case for_each (\<lambda>w. confirm_mailing_entry w eventId) w1 mailing_entries of
                            Inl err \<Rightarrow> Inl err
                          | Inr (mailingListResults, w2) \<Rightarrow>
                              Inr (Json 200
                                \<lparr> cd_attendance =
                                    \<lparr> created = count_status ar_status ''created'' attendanceResults,
                                      skipped = count_status ar_status ''skipped'' attendanceResults,
                                      results = attendanceResults \<rparr>,
                                  cd_mailing_list =
                                    \<lparr> created = count_status mr_status ''created'' mailingListResults,
                                      skipped = count_status mr_status ''skipped'' mailingListResults,
                                      results = mailingListResults \<rparr> \<rparr>, w2))))))"

text \<open>
  The handler awaits the store between the existence check and the insert, and the store
  serves other requests meanwhile. \<open>confirm_attendance_entry_interleaved\<close> is the same
  turn of the loop with the effect \<open>other\<close> of those requests applied to the store
  between the two; with \<open>other\<close> the identity it is \<open>confirm_attendance_entry\<close>.
\<close>

definition confirm_attendance_entry_interleaved ::
  "(world \<Rightarrow> world) \<Rightarrow> world \<Rightarrow> string \<Rightarrow> ConfirmAttendanceEntry
     \<Rightarrow> exn + (AttendanceResult option \<times> world)" where
  "confirm_attendance_entry_interleaved other w eventId entry =
     (case ca_student_name entry of
        None \<Rightarrow> Inr (None, w)
      | Some name \<Rightarrow>
          if trim name = [] then Inr (None, w)
          else
            (case getOrCreateStudentByName w (trim name) eventId of
               Inl err \<Rightarrow> Inl err
             | Inr (student, w1) \<Rightarrow>
                 if alreadyRecorded w1 eventId student
                 then Inr (Some \<lparr> ar_student_name = name, ar_student_id = s_id student,
                                  ar_status = ''skipped'' \<rparr>, w1)
                 else confirm_record (other w1) eventId entry name student))"

text \<open>The store a request leaves, or the store it started from when it threw.\<close>

definition store_after :: "world \<Rightarrow> exn + ('a \<times> world) \<Rightarrow> world" where
  "store_after w outcome = (case outcome of Inl err \<Rightarrow> w | Inr (r, w') \<Rightarrow> w')"

section \<open>Recording one attendance directly (attendance.ts)\<close>

record RecordAttendanceBody =
  rb_student_name :: "string option"
  rb_table_number :: "rat option"
  rb_seat :: "string option"
  rb_source :: "string option"

record AttendanceCreated = AttendanceRow +
  created_student_name :: string

text \<open>
  POST /api/events/:id/attendance. An empty string is falsy, so an empty name is refused
  and an empty seat passes the seat test. The \<^verbatim>\<open>catch\<close> turns the store's UNIQUE
  rejection into a 409 and rethrows anything else.
\<close>

definition post_attendance ::
  "world \<Rightarrow> string \<Rightarrow> RecordAttendanceBody \<Rightarrow> exn + (AttendanceCreated response \<times> world)" where
  "post_attendance w eventId body =
     (case rb_student_name body of
        None \<Rightarrow> Inl (badRequest ''student_name is required'')
      | Some name \<Rightarrow>
          if name = [] then Inl (badRequest ''student_name is required'')
          else if (case rb_seat body of
                     None \<Rightarrow> False
                   | Some seat \<Rightarrow> seat \<noteq> [] \<and> seat \<notin> set [''N'', ''S'', ''E'', ''W''])
          then Inl (badRequest ''seat must be N, S, E, or W'')
          else
            (case getEventById w eventId of
               None \<Rightarrow> Inl (notFound ''Event'' eventId)
             | Some event \<Rightarrow>
                 (case getOrCreateStudentByName w name eventId of
                    Inl err \<Rightarrow> Inl err
                  | Inr (student, w1) \<Rightarrow>
                      (case recordAttendance w1 eventId (s_id student) (rb_table_number body)
                              (rb_seat body)
                              (Some (case rb_source body of None \<Rightarrow> ''manual'' | Some src \<Rightarrow> src)) of
                         Inr (row, w2) \<Rightarrow>
                           Inr (Json 201 (AttendanceRow.extend row
                                  \<lparr> created_student_name = s_name student \<rparr>), w2)
                       | Inl e \<Rightarrow>
                           if instanceof_Error e \<and> str_includes (message e) ''UNIQUE constraint''
                           then Inl (conflict (name @ '' is already recorded for this event''))
                           else Inl e))))"

section \<open>Adding to the mailing list directly (mailing-list.ts)\<close>

record AddMailingListBody =
  mb_name :: "string option"
  mb_email :: "string option"
  mb_event_id :: "string option"

text \<open>POST /api/mailing-list. Name and email are used as supplied.\<close>

definition post_mailing_list ::
  "world \<Rightarrow> AddMailingListBody \<Rightarrow> exn + (MailingListRow response \<times> world)" where
  "post_mailing_list w body =
     (case mb_name body of
        None \<Rightarrow> Inl (badRequest ''name is required'')
      | Some name \<Rightarrow>
          if name = [] then Inl (badRequest ''name is required'')
          else
            (case mb_email body of
               None \<Rightarrow> Inl (badRequest ''email is required'')
             | Some email \<Rightarrow>
                 if email = [] then Inl (badRequest ''email is required'')
                 else
                   (case getMailingListByEmail w email of
                      Some existing \<Rightarrow>
                        Inl (conflict (''Email '' @ email @ '' is already on the mailing list''))
                    | None \<Rightarrow>
                        (case addMailingListEntry w name email (mb_event_id body) of
                           Inl err \<Rightarrow> Inl err
                         | Inr (entry, w') \<Rightarrow> Inr (Json 201 entry, w')))))"

section \<open>Scanning a sheet (scan.ts, claude-vision.ts)\<close>

text \<open>
  What the vision collaborator did with the request: the fetch threw, the reply was not
  OK (status and body as text), the reply had no non-empty text block, or it had one;
  then the text comes with what \<^verbatim>\<open>JSON.parse\<close> makes of it once the code fences are
  stripped (\<open>None\<close> when it throws).
\<close>

datatype vision_reply =
    FetchThrows exn
  | NotOk string string
  | NoTextBlock
  | TextBlock string "json option"

definition processAttendanceSheet :: "vision_reply \<Rightarrow> exn + OcrResult" where
  "processAttendanceSheet reply =
     (case reply of
        FetchThrows err \<Rightarrow> Inl err
      | NotOk status errorBody \<Rightarrow>
          Inl (Error (''Anthropic API error ('' @ status @ ''): '' @ errorBody))
      | NoTextBlock \<Rightarrow> Inl (Error ''No text content in Anthropic API response'')
      | TextBlock text parsed \<Rightarrow>
          (case parsed of
             None \<Rightarrow>
               Inl (Error (''Failed to parse OCR result as JSON. Raw response: ''
                            @ take 500 (trim text)))
           | Some raw \<Rightarrow> validateOcrResult raw))"

definition insertOcrJob :: "world \<Rightarrow> string \<Rightarrow> string \<Rightarrow> exn + (OcrJobRow \<times> world)" where
  "insertOcrJob w event_id r2_key =
     (let (ident, w1) = generateId w;
          row = \<lparr> j_id = ident, j_event_id = event_id, j_r2_key = r2_key, j_status = ''pending'',
                  j_result_json = None, j_error_message = None, j_processed_at = None \<rparr>
      in if list_ex (\<lambda>j. j_id j = ident) (ocr_jobs w1)
         then Inl (SqliteError UNIQUE '': ocr_jobs.id'')
         else if getEventById w1 event_id = None then Inl (SqliteError FOREIGN_KEY [])
         else Inr (row, w1\<lparr>ocr_jobs := ocr_jobs w1 @ [row]\<rparr>))"

definition getOcrJobById :: "world \<Rightarrow> string \<Rightarrow> OcrJobRow option" where
  "getOcrJobById w ident = find (\<lambda>j. j_id j = ident) (ocr_jobs w)"

definition updateOcrJobProcessing :: "world \<Rightarrow> string \<Rightarrow> world" where
  "updateOcrJobProcessing w ident =
     w\<lparr>ocr_jobs := map (\<lambda>j. if j_id j = ident then j\<lparr>j_status := ''processing''\<rparr> else j)
                        (ocr_jobs w)\<rparr>"

text \<open>\<open>now\<close> is the store's clock reading, \<^verbatim>\<open>strftime('%Y-%m-%dT%H:%M:%SZ', 'now')\<close>.\<close>

definition updateOcrJobComplete :: "world \<Rightarrow> string \<Rightarrow> OcrResult \<Rightarrow> string \<Rightarrow> world" where
  "updateOcrJobComplete w ident resultJson now =
     w\<lparr>ocr_jobs := map (\<lambda>j. if j_id j = ident
                              then j\<lparr>j_status := ''complete'', j_result_json := Some resultJson,
                                     j_processed_at := Some now\<rparr>
                              else j) (ocr_jobs w)\<rparr>"

definition updateOcrJobFailed :: "world \<Rightarrow> string \<Rightarrow> string \<Rightarrow> string \<Rightarrow> world" where
  "updateOcrJobFailed w ident errorMessage now =
     w\<lparr>ocr_jobs := map (\<lambda>j. if j_id j = ident
                              then j\<lparr>j_status := ''failed'', j_error_message := Some errorMessage,
                                     j_processed_at := Some now\<rparr>
                              else j) (ocr_jobs w)\<rparr>"

record UploadedFile =
  f_type :: string
  f_bytes :: string

record ScanData =
  sd_ocr_job_id :: string
  sd_r2_key :: string
  sd_status :: string
  sd_result :: "OcrResult option"
  sd_error :: "string option"

definition ALLOWED_TYPES :: "string list" where
  "ALLOWED_TYPES = [''image/jpeg'', ''image/png'', ''image/gif'', ''image/webp'']"

definition MAX_SIZE :: nat where
  "MAX_SIZE = 10 * 1024 * 1024"

text \<open>
  POST /api/events/:id/scan. \<open>apiKey\<close> is the configured key (empty when it is not
  set), \<open>photo\<close> the uploaded file (\<open>None\<close> when the form has none or has a string
  there), \<open>timestamp\<close> the decimal text of \<^verbatim>\<open>Math.floor(Date.now() / 1000)\<close>, \<open>now\<close> the
  store's clock, \<open>reply\<close> what the vision collaborator does. The message for an image
  that is too large keeps its fixed text; the size figure the source prints into it is a
  floating-point quotient and is left out.
\<close>

definition scan ::
  "world \<Rightarrow> string \<Rightarrow> string \<Rightarrow> UploadedFile option \<Rightarrow> string \<Rightarrow> string \<Rightarrow> vision_reply
     \<Rightarrow> exn + (ScanData response \<times> world)" where
  "scan w apiKey eventId photo timestamp now reply =
     (case getEventById w eventId of
        None \<Rightarrow> Inl (notFound ''Event'' eventId)
      | Some event \<Rightarrow>
          if apiKey = [] then Inl (badRequest ''ANTHROPIC_API_KEY is not configured'')
          else
            (case photo of
               None \<Rightarrow> Inl (badRequest ''photo file is required'')
             | Some file \<Rightarrow>
                 if f_type file \<notin> set ALLOWED_TYPES
                 then Inl (badRequest (''Unsupported image type: '' @ f_type file @ ''. Allowed: ''
                        @ ''image/jpeg, image/png, image/gif, image/webp''))
                 else if length (f_bytes file) > MAX_SIZE
                 then Inl (badRequest ''Image too large. Max: 5MB'')
                 else
                   (let ext = (if f_type file = ''image/png'' then ''png''
                               else if f_type file = ''image/webp'' then ''webp''
                               else if f_type file = ''image/gif'' then ''gif'' else ''jpg'');
                        (uuid, w1) = generateId w;
                        r2Key = eventId @ ''/attendance-sheet/'' @ timestamp @ ''-'' @ take 8 uuid
                                @ ''.'' @ ext;
                        w2 = w1\<lparr>PHOTOS := (PHOTOS w1)(r2Key \<mapsto>
                               \<lparr> r2_body = f_bytes file, r2_contentType = f_type file \<rparr>)\<rparr>
                    in case insertOcrJob w2 eventId r2Key of
                         Inl err \<Rightarrow> Inl err
                       | Inr (ocrJob, w3) \<Rightarrow>
                           (let w4 = updateOcrJobProcessing w3 (j_id ocrJob) in
                            case processAttendanceSheet reply of
                              Inr result \<Rightarrow>
                                Inr (Json 200
                                  \<lparr> sd_ocr_job_id = j_id ocrJob, sd_r2_key = r2Key,
                                    sd_status = ''complete'', sd_result = Some result,
                                    sd_error = None \<rparr>,
                                  updateOcrJobComplete w4 (j_id ocrJob) result now)
                            | Inl err \<Rightarrow>
                                (let msg = (if instanceof_Error err then message err
                                            else ''Unknown OCR error'')
                                 in Inr (Json 200
                                      \<lparr> sd_ocr_job_id = j_id ocrJob, sd_r2_key = r2Key,
                                        sd_status = ''failed'', sd_result = None,
                                        sd_error = Some msg \<rparr>,
                                      updateOcrJobFailed w4 (j_id ocrJob) msg now))))))"

section \<open>The class roster (events.ts)\<close>

record RosterRow =
  rr_student_id :: string
  rr_student_name :: string
  rr_is_member :: int
  rr_declined :: int

text \<open>
  Modelled from the spec: \<^verbatim>\<open>getRosterForClass\<close>, which \<^verbatim>\<open>events.ts\<close> calls and
  \<^verbatim>\<open>queries.ts\<close> does not contain. The specification (4.6) gives the roster as the
  distinct set of students who have ever attended any event sharing the event name,
  each joined against Member by case-insensitive exact name match. Here every student
  with such an attendance row appears once, with \<open>is_member\<close> 1 when some member has the
  same name up to letter case and \<open>declined\<close> the flag of the first such member (0 when
  there is none). The handler also passes on a count \<^verbatim>\<open>events_attended\<close>, of which the
  specification says nothing; it is left out.
\<close>

definition attended_class :: "world \<Rightarrow> string \<Rightarrow> StudentRow \<Rightarrow> bool" where
  "attended_class w className s =
     list_ex (\<lambda>a. a_student_id a = s_id s
                \<and> list_ex (\<lambda>e. e_id e = a_event_id a \<and> e_name e = className) (events w))
       (attendance w)"

definition matching_member :: "world \<Rightarrow> StudentRow \<Rightarrow> MemberRow option" where
  "matching_member w s = find (\<lambda>m. toLowerCase (m_name m) = toLowerCase (s_name s)) (members w)"

definition getRosterForClass :: "world \<Rightarrow> string \<Rightarrow> RosterRow list" where
  "getRosterForClass w className =
     map (\<lambda>s. \<lparr> rr_student_id = s_id s, rr_student_name = s_name s,
                 rr_is_member = (case matching_member w s of None \<Rightarrow> 0 | Some m \<Rightarrow> 1),
                 rr_declined = (case matching_member w s of None \<Rightarrow> 0 | Some m \<Rightarrow> m_declined m) \<rparr>)
         (filter (attended_class w className) (students w))"

record RosterStudent =
  rs_student_id :: string
  rs_name :: string
  rs_is_member :: bool
  rs_declined :: bool
  rs_needs_mailing_list :: bool

record RosterData =
  rd_class_name :: string
  rd_teacher :: string
  rd_total_students :: nat
  rd_needs_mailing_list :: nat
  rd_students :: "RosterStudent list"

text \<open>GET /api/events/:id/roster\<close>

definition get_roster :: "world \<Rightarrow> string \<Rightarrow> exn + (RosterData response \<times> world)" where
  "get_roster w ident =
     (case getEventById w ident of
        None \<Rightarrow> Inl (notFound ''Event'' ident)
      | Some event \<Rightarrow>
          (let roster = getRosterForClass w (e_name event);
               students = map (\<lambda>r. \<lparr> rs_student_id = rr_student_id r, rs_name = rr_student_name r,
                                       rs_is_member = (rr_is_member r = 1),
                                       rs_declined = (rr_declined r = 1),
                                       rs_needs_mailing_list =
                                         (rr_is_member r = 0 \<and> rr_declined r = 0) \<rparr>) roster
           in Inr (Json 200
                \<lparr> rd_class_name = e_name event, rd_teacher = e_teacher event,
                  rd_total_students = length students,
                  rd_needs_mailing_list = length (filter rs_needs_mailing_list students),
                  rd_students = students \<rparr>, w)))"

text \<open>
  \<^verbatim>\<open>findNonMembers\<close> (queries.ts): of the students whose id is in the list, those that
  the LEFT JOIN on \<^verbatim>\<open>LOWER(s.name) = LOWER(m.name)\<close> pairs with no member, as (id, name).
\<close>

definition findNonMembers :: "world \<Rightarrow> string list \<Rightarrow> (string \<times> string) list" where
  "findNonMembers w studentIds =
     (if studentIds = [] then []
      else map (\<lambda>s. (s_id s, s_name s))
             (filter (\<lambda>s. s_id s \<in> set studentIds
                        \<and> \<not> list_ex (\<lambda>m. toLowerCase (s_name s) = toLowerCase (m_name m)) (members w))
                (students w)))"

text \<open>\<^verbatim>\<open>deleteMember\<close> (queries.ts): whether a row was deleted, and the store.\<close>

definition deleteMember :: "world \<Rightarrow> string \<Rightarrow> bool \<times> world" where
  "deleteMember w ident =
     (list_ex (\<lambda>m. m_id m = ident) (members w),
      w\<lparr>members := filter (\<lambda>m. m_id m \<noteq> ident) (members w)\<rparr>)"

section \<open>Auxiliary notions for the properties\<close>

text \<open>
  The identifiers in use (as keys or as references), and what is assumed of
  \<^verbatim>\<open>crypto.randomUUID()\<close> where a property needs inserts to succeed: the identifiers
  still to come are pairwise different and none is in use. \<open>unique_pairs\<close> is the
  UNIQUE(event_id, student_id) constraint as a property of the table; \<open>extends\<close> says
  that a store only gained rows; \<open>recorded\<close> says that the student found under a name
  has an attendance row for the event; \<open>stored\<close> that an email is on the mailing list.
  \<open>nonblank\<close> is the truthiness of \<^verbatim>\<open>x?.trim()\<close>; \<open>seat_ok\<close> says that the seat of an
  entry is absent or in the seat domain; \<open>ml_valid\<close> that the mailing-list loop does not
  drop the entry.
\<close>

definition used_ids :: "world \<Rightarrow> string set" where
  "used_ids w = s_id ` set (students w) \<union> a_id ` set (attendance w)
                 \<union> a_student_id ` set (attendance w)
                 \<union> ml_id ` set (mailing_list w) \<union> j_id ` set (ocr_jobs w)"

definition fresh_ids :: "world \<Rightarrow> bool" where
  "fresh_ids w = (\<forall>i\<ge>uuid_pos w. uuid_seq w i \<notin> used_ids w
                    \<and> (\<forall>j\<ge>uuid_pos w. uuid_seq w i = uuid_seq w j \<longrightarrow> i = j))"

definition unique_pairs :: "world \<Rightarrow> bool" where
  "unique_pairs w = distinct (map (\<lambda>a. (a_event_id a, a_student_id a)) (attendance w))"

definition extends :: "world \<Rightarrow> world \<Rightarrow> bool" where
  "extends w w' = (events w' = events w \<and> members w' = members w \<and> uuid_seq w' = uuid_seq w
      \<and> (\<exists>ys. students w' = students w @ ys) \<and> (\<exists>ys. attendance w' = attendance w @ ys)
      \<and> (\<exists>ys. mailing_list w' = mailing_list w @ ys))"

definition recorded :: "world \<Rightarrow> string \<Rightarrow> string \<Rightarrow> bool" where
  "recorded w eventId name =
     (case getStudentByName w name of None \<Rightarrow> False | Some st \<Rightarrow> alreadyRecorded w eventId st)"

definition nonblank :: "string option \<Rightarrow> bool" where
  "nonblank x = (case x of None \<Rightarrow> False | Some s \<Rightarrow> trim s \<noteq> [])"

definition seat_ok :: "ConfirmAttendanceEntry \<Rightarrow> bool" where
  "seat_ok e = (ca_seat e = None \<or> ca_seat e \<in> Some ` set [''N'', ''S'', ''E'', ''W''])"



text \<open>
  The inputs on which the normalizer does return: the value is not \<^verbatim>\<open>null\<close>, its
  \<^verbatim>\<open>attendance\<close> and \<^verbatim>\<open>mailing_list\<close> are arrays or missing, no entry is \<^verbatim>\<open>null\<close>,
  and each name (and each email of a mailing-list entry) is a string or missing.
  Everything else about the value is free.
\<close>

definition string_or_missing :: "json option \<Rightarrow> bool" where
  "string_or_missing x = (case nullish x (JStr []) of JStr s \<Rightarrow> True | _ \<Rightarrow> False)"

definition attendance_shaped :: "json \<Rightarrow> bool" where
  "attendance_shaped entry =
     (entry \<noteq> JNull \<and> string_or_missing (projr (get_prop entry ''name'')))"

definition mailing_shaped :: "json \<Rightarrow> bool" where
  "mailing_shaped entry =
     (entry \<noteq> JNull \<and> string_or_missing (projr (get_prop entry ''name''))
        \<and> string_or_missing (projr (get_prop entry ''email'')))"

definition array_of :: "(json \<Rightarrow> bool) \<Rightarrow> json option \<Rightarrow> bool" where
  "array_of shaped x = (case nullish x (JArr []) of JArr entries \<Rightarrow> list_all shaped entries | _ \<Rightarrow> False)"

definition well_shaped :: "json \<Rightarrow> bool" where
  "well_shaped raw =
     (raw \<noteq> JNull \<and> array_of attendance_shaped (projr (get_prop raw ''attendance''))
        \<and> array_of mailing_shaped (projr (get_prop raw ''mailing_list'')))"

text \<open>
  \<open>store_ok\<close> collects what the confirm loops need of the store to run without a
  rejection: the event exists, the identifiers to come are fresh, and the attendance
  table satisfies its uniqueness constraint. \<open>names_recorded\<close> and \<open>emails_stored\<close>
  say that every entry of a list that the loop does not skip silently is already
  in the store.
\<close>

definition store_ok :: "string \<Rightarrow> world \<Rightarrow> bool" where
  "store_ok ev w = (getEventById w ev \<noteq> None \<and> fresh_ids w \<and> unique_pairs w)"



section \<open>A small store and a request, for the examples\<close>

text \<open>
  One event and nothing else; the identifiers to come are \<open>uuid-\<close>, \<open>uuid-x\<close>,
  \<open>uuid-xx\<close>, ... standing for distinct UUIDs.
\<close>

definition example_world :: world where
  "example_world =
     \<lparr> events = [\<lparr> e_id = ''A1B2C3D4'', e_name = ''Tuesday Beginner'', e_date = ''2026-03-03'',
                    e_teacher = ''Rick'', e_location = [], e_type = ''face_to_face'' \<rparr>],
       students = [], attendance = [], mailing_list = [], members = [], ocr_jobs = [],
       PHOTOS = Map.empty,
       uuid_seq = (\<lambda>n. ''uuid-'' @ replicate n CHR ''x''),
       uuid_pos = 0 \<rparr>"


definition ann_entry :: ConfirmAttendanceEntry where
  "ann_entry = \<lparr> ca_student_name = Some ''Ann'', ca_table_number = Some 1, ca_seat = Some ''N'' \<rparr>"

definition ann_body :: ConfirmOcrBody where
  "ann_body = \<lparr> cb_attendance = Some [ann_entry], cb_mailing_list = Some [] \<rparr>"

text \<open>The store after one request has confirmed Ann.\<close>

definition ann_world :: world where
  "ann_world = store_after example_world (confirm example_world ''A1B2C3D4'' ann_body)"

text \<open>The example store with one address already on the mailing list.\<close>

definition listed_world :: world where
  "listed_world = example_world
     \<lparr> mailing_list := [\<lparr> ml_id = ''m1'', ml_name = ''A'', ml_email = ''x@y.com'',
                           ml_event_id = None \<rparr>] \<rparr>"

text \<open>An uploaded photograph.\<close>

definition jpeg_photo :: UploadedFile where
  "jpeg_photo = \<lparr> f_type = ''image/jpeg'', f_bytes = ''JFIF'' \<rparr>"

text \<open>
  Two occurrences of one class. Alice attended both and Bob the second; the member
  roster holds Alice under a name that differs in letter case.
\<close>

definition class_world :: world where
  "class_world =
     \<lparr> events = [\<lparr> e_id = ''A1B2C3D4'', e_name = ''Tuesday Beginner'', e_date = ''2026-03-03'',
                    e_teacher = ''Rick'', e_location = [], e_type = ''face_to_face'' \<rparr>,
                  \<lparr> e_id = ''A1B2C3D5'', e_name = ''Tuesday Beginner'', e_date = ''2026-03-10'',
                    e_teacher = ''Rick'', e_location = [], e_type = ''face_to_face'' \<rparr>],
       students = [\<lparr> s_id = ''s1'', s_name = ''Alice Johnson'', s_email = None,
                      s_photo_url = None, s_first_event_id = Some ''A1B2C3D4'' \<rparr>,
                    \<lparr> s_id = ''s2'', s_name = ''Bob Lee'', s_email = None,
                      s_photo_url = None, s_first_event_id = Some ''A1B2C3D5'' \<rparr>],
       attendance = [\<lparr> a_id = ''a1'', a_event_id = ''A1B2C3D4'', a_student_id = ''s1'',
                        a_table_number = Some 1, a_seat = Some ''N'', a_source = ''ocr'' \<rparr>,
                      \<lparr> a_id = ''a2'', a_event_id = ''A1B2C3D5'', a_student_id = ''s1'',
                        a_table_number = None, a_seat = None, a_source = ''manual'' \<rparr>,
                      \<lparr> a_id = ''a3'', a_event_id = ''A1B2C3D5'', a_student_id = ''s2'',
                        a_table_number = None, a_seat = None, a_source = ''manual'' \<rparr>],
       mailing_list = [],
       members = [\<lparr> m_id = ''m1'', m_name = ''alice johnson'', m_email = ''alice@example.com'',
                     m_joined_date = None, m_declined = 0 \<rparr>],
       ocr_jobs = [],
       PHOTOS = Map.empty,
       uuid_seq = (\<lambda>n. ''uuid-'' @ replicate n CHR ''x''),
       uuid_pos = 0 \<rparr>"

section \<open>Properties of the normalizer\<close>

lemma upper_char_letter:
  "upper_char c = CHR ''N'' \<longleftrightarrow> lower_char c = CHR ''n''"
  "upper_char c = CHR ''O'' \<longleftrightarrow> lower_char c = CHR ''o''"
  "upper_char c = CHR ''R'' \<longleftrightarrow> lower_char c = CHR ''r''"
  "upper_char c = CHR ''T'' \<longleftrightarrow> lower_char c = CHR ''t''"
  "upper_char c = CHR ''H'' \<longleftrightarrow> lower_char c = CHR ''h''"
  "upper_char c = CHR ''S'' \<longleftrightarrow> lower_char c = CHR ''s''"
  "upper_char c = CHR ''U'' \<longleftrightarrow> lower_char c = CHR ''u''"
  "upper_char c = CHR ''E'' \<longleftrightarrow> lower_char c = CHR ''e''"
  "upper_char c = CHR ''A'' \<longleftrightarrow> lower_char c = CHR ''a''"
  "upper_char c = CHR ''W'' \<longleftrightarrow> lower_char c = CHR ''w''"
  by (auto simp add: upper_char_def lower_char_def)

lemma upper_sequences_high:
  "list_all (\<lambda>(k, u). k \<noteq> [] \<and> digit7 (hd k)) upper_sequences"
  by (simp add: upper_sequences_def)

text \<open>On ASCII text \<open>toUpperCase\<close> maps byte by byte.\<close>

lemma ascii_upper: "ascii t \<Longrightarrow> toUpperCase t = map upper_char t"
proof (induction t)
  case Nil
  then show ?case by simp
next
  case (Cons c cs)
  then have c: "\<not> digit7 c" and cs: "ascii cs" by (simp_all add: ascii_def)
  have "\<not> prefix k (c # cs)" if "(k, u) \<in> set upper_sequences" for k u
  proof -
    from that upper_sequences_high have "k \<noteq> [] \<and> digit7 (hd k)"
      by (auto simp add: list_all_iff)
    with c show ?thesis by (cases k) auto
  qed
  then have "find (\<lambda>(k, u). prefix k (c # cs)) upper_sequences = None"
    by (auto simp add: find_None_iff)
  with Cons.IH[OF cs] show ?case by simp
qed

lemma upper_word_iff:
  "map upper_char t = ''NORTH'' \<longleftrightarrow> toLowerCase t = ''north''"
  "map upper_char t = ''SOUTH'' \<longleftrightarrow> toLowerCase t = ''south''"
  "map upper_char t = ''EAST'' \<longleftrightarrow> toLowerCase t = ''east''"
  "map upper_char t = ''WEST'' \<longleftrightarrow> toLowerCase t = ''west''"
  "map upper_char t = ''N'' \<longleftrightarrow> toLowerCase t = ''n''"
  "map upper_char t = ''S'' \<longleftrightarrow> toLowerCase t = ''s''"
  "map upper_char t = ''E'' \<longleftrightarrow> toLowerCase t = ''e''"
  "map upper_char t = ''W'' \<longleftrightarrow> toLowerCase t = ''w''"
  by (auto simp add: toLowerCase_def map_eq_Cons_conv upper_char_letter)

lemma lower_literals:
  "toLowerCase ''north'' = ''north''" "toLowerCase ''south'' = ''south''"
  "toLowerCase ''east'' = ''east''" "toLowerCase ''west'' = ''west''"
  "toLowerCase ''n'' = ''n''" "toLowerCase ''s'' = ''s''"
  "toLowerCase ''e'' = ''e''" "toLowerCase ''w'' = ''w''"
  by (simp_all add: toLowerCase_def lower_char_def)

text \<open>
  C5, as stated: every value that is not one of the words NORTH, SOUTH, EAST, WEST or
  one of the letters N, S, E, W in some letter case maps to null. The string
  \<open>'' north ''\<close> (with a space on each side) is no such word in any letter case, and
  \<open>normalizeSeat\<close> maps it to N: the source trims the value before it compares.
\<close>

theorem normalizeSeat_padded_counterexample:
  "\<not> eq_ignore_case '' north '' ''north'' \<and> seat_spec '' north '' = None
   \<and> normalizeSeat (Some (JStr '' north '')) = Some ''N''"
  by (simp add: normalizeSeat_def seat_spec_def eq_ignore_case_def trim_def white_space_def
      upper_sequences_def toLowerCase_def upper_char_def lower_char_def)

text \<open>
  Characters outside ASCII can reach the seat letters as well, because the source
  compares upper-case forms and trims all white space: the long s (U+017F) alone maps
  to S, and so does the long s followed by \<open>outh\<close>; \<open>we\<close> followed by the ligature
  U+FB06 maps to W. A no-break space (U+00A0) before N is trimmed like any other white
  space. None of these strings is one of the words or letters in another letter case.
\<close>

lemma normalizeSeat_beyond_ascii:
  "normalizeSeat (Some (JStr [CHR 0xC5, CHR 0xBF])) = Some ''S''"
  "normalizeSeat (Some (JStr ([CHR 0xC5, CHR 0xBF] @ ''outh''))) = Some ''S''"
  "normalizeSeat (Some (JStr (''we'' @ [CHR 0xEF, CHR 0xAC, CHR 0x86]))) = Some ''W''"
  "normalizeSeat (Some (JStr ([CHR 0xC2, CHR 0xA0] @ ''N''))) = Some ''N''"
  "seat_spec [CHR 0xC5, CHR 0xBF] = None"
  "seat_spec ([CHR 0xC5, CHR 0xBF] @ ''outh'') = None"
  "seat_spec (''we'' @ [CHR 0xEF, CHR 0xAC, CHR 0x86]) = None"
  "seat_spec ([CHR 0xC2, CHR 0xA0] @ ''N'') = None"
  by (simp_all add: normalizeSeat_def seat_spec_def eq_ignore_case_def trim_def white_space_def
      upper_sequences_def toLowerCase_def upper_char_def lower_char_def)

text \<open>
  C5, amended: on every value that is not a string, and on every string that consists
  of ASCII characters once its leading and trailing white space is removed, seat
  normalization is total and case-insensitive on the trimmed value. Such a string whose
  trimmed form is NORTH, SOUTH, EAST or WEST in any letter case maps to N, S, E, W; one
  whose trimmed form is one of the letters N, S, E, W in either case maps to that letter
  in upper case; every other such string (\<open>up\<close>, the empty string) and every value that
  is not a string (a missing value, a number such as 123) maps to null. Strings whose
  trimmed form has a character outside ASCII are left out of the statement.
\<close>

theorem normalizeSeat_trimmed:
  "(ascii (trim s) \<longrightarrow> normalizeSeat (Some (JStr s)) = seat_spec (trim s))
   \<and> ((\<forall>t. v \<noteq> Some (JStr t)) \<longrightarrow> normalizeSeat v = None)"
proof (intro conjI impI)
  assume "ascii (trim s)"
  then have "toUpperCase (trim s) = map upper_char (trim s)"
    by (rule ascii_upper)
  then show "normalizeSeat (Some (JStr s)) = seat_spec (trim s)"
    by (auto simp add: normalizeSeat_def seat_spec_def eq_ignore_case_def Let_def
        upper_word_iff lower_literals)
next
  assume "\<forall>t. v \<noteq> Some (JStr t)"
  then show "normalizeSeat v = None"
    by (auto simp add: normalizeSeat_def split: option.splits json.splits)
qed

theorem normalizeSeat_trimmed_witness:
  "ascii (trim '' North '') \<and> normalizeSeat (Some (JStr '' North '')) = Some ''N''
   \<and> ascii (trim ''w'') \<and> normalizeSeat (Some (JStr ''w'')) = Some ''W''
   \<and> ascii (trim ''up'') \<and> normalizeSeat (Some (JStr ''up'')) = None
   \<and> ascii (trim []) \<and> normalizeSeat (Some (JStr [])) = None
   \<and> ascii (trim ([CHR 0xC2, CHR 0xA0] @ ''east''))
   \<and> normalizeSeat (Some (JStr ([CHR 0xC2, CHR 0xA0] @ ''east''))) = Some ''E''
   \<and> normalizeSeat (Some (JNum 123)) = None \<and> normalizeSeat None = None"
  using normalizeSeat_trimmed[of "'' North ''" None] normalizeSeat_trimmed[of "''w''" "Some (JNum 123)"]
    normalizeSeat_trimmed[of "''up''"] normalizeSeat_trimmed[of "[]"]
    normalizeSeat_trimmed[of "[CHR 0xC2, CHR 0xA0] @ ''east''"]
  by (simp add: ascii_def seat_spec_def eq_ignore_case_def trim_def white_space_def
      toLowerCase_def lower_char_def)

lemma normalizeSeat_examples:
  "normalizeSeat (Some (JStr ''north'')) = Some ''N''"
  "normalizeSeat (Some (JStr ''North'')) = Some ''N''"
  "normalizeSeat (Some (JStr ''n'')) = Some ''N''"
  "normalizeSeat (Some (JStr ''N'')) = Some ''N''"
  "normalizeSeat (Some (JStr ''up'')) = None"
  "normalizeSeat (Some (JStr [])) = None"
  "normalizeSeat (Some (JNum 123)) = None"
  "normalizeSeat None = None"
  by (simp_all add: normalizeSeat_def trim_def white_space_def upper_sequences_def upper_char_def)

text \<open>
  C1: the normalizer returns for every parsed JSON value, whatever its shape. The source
  does not: it throws a \<^verbatim>\<open>TypeError\<close> when an entry's name is present and not a
  string, when \<^verbatim>\<open>attendance\<close> is present and not an array, when an entry is
  \<^verbatim>\<open>null\<close>, and when the whole value is \<^verbatim>\<open>null\<close>.
\<close>

theorem validateOcrResult_throws:
  "validateOcrResult (JObj [(''attendance'', JArr [JObj [(''name'', JNum 42)]])])
     = Inl (TypeError ''entry.name.trim is not a function'')
   \<and> validateOcrResult (JObj [(''attendance'', JStr ''none'')])
     = Inl (TypeError ''raw.attendance.map is not a function'')
   \<and> isl (validateOcrResult (JObj [(''attendance'', JArr [JNull])]))
   \<and> isl (validateOcrResult JNull)"
  by (simp add: validateOcrResult_def array_or_empty_map_def attendance_entry_def
      trim_or_empty_def)

text \<open>
  On well-shaped input the normalizer returns, with the documented defaults: the form
  type is \<open>roster\<close> only for exactly that string and \<open>blank\<close> otherwise, missing QR data
  is null, a confidence that is not a number is 0.5, missing notes are the empty string,
  no attendance entry has an empty name, every seat is N, S, E, W or null, and no
  mailing-list entry has an empty name or email.
\<close>

lemma get_prop_Inr: "v \<noteq> JNull \<Longrightarrow> \<exists>x. get_prop v k = Inr x"
  by (cases v) simp_all

lemma trim_or_empty_Inr:
  "string_or_missing x \<Longrightarrow> \<exists>s. trim_or_empty what x = Inr s"
  by (auto simp: string_or_missing_def trim_or_empty_def split: json.splits)

lemma normalizeSeat_domain:
  "normalizeSeat v \<in> {None, Some ''N'', Some ''S'', Some ''E'', Some ''W''}"
  by (auto simp: normalizeSeat_def Let_def split: option.splits json.splits)

lemma attendance_entry_Inr:
  assumes "attendance_shaped entry"
  shows "\<exists>e. attendance_entry entry = Inr e
     \<and> oa_seat e \<in> {None, Some ''N'', Some ''S'', Some ''E'', Some ''W''}
     \<and> (oa_confidence e = 1 / 2 \<or> projr (get_prop entry ''confidence'') = Some (JNum (oa_confidence e)))"
proof -
  from assms have n: "entry \<noteq> JNull" and s: "string_or_missing (projr (get_prop entry ''name''))"
    by (auto simp: attendance_shaped_def)
  from get_prop_Inr[OF n] obtain nm where g: "get_prop entry ''name'' = Inr nm" by blast
  from trim_or_empty_Inr[OF s] obtain t where
    t: "trim_or_empty ''entry.name'' nm = Inr t" by (auto simp: g)
  have c: "number_or x (1 / 2) (\<lambda>n. n) = 1 / 2 \<or> x = Some (JNum (number_or x (1 / 2) (\<lambda>n. n)))" for x
    by (cases "(x, 1 / 2 :: rat, \<lambda>n::rat. n)" rule: number_or.cases) auto
  show ?thesis
    using normalizeSeat_domain[of "projr (get_prop entry ''seat'')"]
      c[of "projr (get_prop entry ''confidence'')"]
    by (simp add: attendance_entry_def g t)
qed

lemma mailing_entry_Inr:
  assumes "mailing_shaped entry"
  shows "\<exists>e. mailing_entry entry = Inr e"
proof -
  from assms have n: "entry \<noteq> JNull" and s: "string_or_missing (projr (get_prop entry ''name''))"
    and m: "string_or_missing (projr (get_prop entry ''email''))"
    by (auto simp: mailing_shaped_def)
  from get_prop_Inr[OF n] obtain nm where g: "get_prop entry ''name'' = Inr nm" by blast
  from trim_or_empty_Inr[OF s] obtain t where
    t: "trim_or_empty ''entry.name'' nm = Inr t" by (auto simp: g)
  from trim_or_empty_Inr[OF m] obtain u where
    u: "trim_or_empty ''entry.email'' (projr (get_prop entry ''email'')) = Inr u" by blast
  show ?thesis
    by (simp add: mailing_entry_def g t u)
qed

lemma map_throwing_Inr:
  assumes "\<forall>x\<in>set xs. \<exists>y. f x = Inr y \<and> P y"
  shows "\<exists>ys. map_throwing f xs = Inr ys \<and> (\<forall>y\<in>set ys. P y)"
  using assms
proof (induction xs)
  case Nil
  then show ?case by simp
next
  case (Cons x xs)
  then obtain y ys where "f x = Inr y" "P y" "map_throwing f xs = Inr ys" "\<forall>y\<in>set ys. P y"
    by auto
  then show ?case by simp
qed

lemma array_or_empty_map_Inr:
  assumes "array_of shaped x" "\<And>e. shaped e \<Longrightarrow> \<exists>y. f e = Inr y \<and> P y"
  shows "\<exists>ys. array_or_empty_map what x f = Inr ys \<and> (\<forall>y\<in>set ys. P y)"
proof -
  from assms(1) obtain entries where e: "nullish x (JArr []) = JArr entries" "list_all shaped entries"
    by (auto simp: array_of_def split: json.splits)
  from e(2) assms(2) have "\<forall>x\<in>set entries. \<exists>y. f x = Inr y \<and> P y" by (auto simp: list_all_iff)
  from map_throwing_Inr[OF this] e(1) show ?thesis by (simp add: array_or_empty_map_def)
qed

lemma validateOcrResult_well_shaped:
  assumes "well_shaped raw"
  shows "\<exists>r. validateOcrResult raw = Inr r
     \<and> or_form_type r = (if projr (get_prop raw ''form_type'') = Some (JStr ''roster'')
                          then ''roster'' else ''blank'')
     \<and> or_qr_data r = nullish (projr (get_prop raw ''qr_data'')) JNull
     \<and> or_confidence r = number_or (projr (get_prop raw ''confidence'')) (1 / 2) (\<lambda>n. n)
     \<and> or_notes r = nullish (projr (get_prop raw ''notes'')) (JStr [])
     \<and> (\<forall>e\<in>set (or_attendance r). oa_name e \<noteq> []
           \<and> oa_seat e \<in> {None, Some ''N'', Some ''S'', Some ''E'', Some ''W''})
     \<and> (\<forall>e\<in>set (or_mailing_list r). om_name e \<noteq> [] \<and> om_email e \<noteq> [])"
proof -
  from assms have n: "raw \<noteq> JNull"
    and a: "array_of attendance_shaped (projr (get_prop raw ''attendance''))"
    and m: "array_of mailing_shaped (projr (get_prop raw ''mailing_list''))"
    by (auto simp: well_shaped_def)
  from array_or_empty_map_Inr[OF a, of attendance_entry
      "\<lambda>e. oa_seat e \<in> {None, Some ''N'', Some ''S'', Some ''E'', Some ''W''}" "''raw.attendance''"]
    attendance_entry_Inr
  obtain att where att: "array_or_empty_map ''raw.attendance'' (projr (get_prop raw ''attendance''))
      attendance_entry = Inr att"
    "\<forall>e\<in>set att. oa_seat e \<in> {None, Some ''N'', Some ''S'', Some ''E'', Some ''W''}"
    by blast
  from array_or_empty_map_Inr[OF m, of mailing_entry "\<lambda>_. True" "''raw.mailing_list''"]
    mailing_entry_Inr
  obtain ml where ml: "array_or_empty_map ''raw.mailing_list'' (projr (get_prop raw ''mailing_list''))
      mailing_entry = Inr ml"
    by blast
  from get_prop_Inr[OF n] obtain qr where g: "get_prop raw ''qr_data'' = Inr qr" by blast
  show ?thesis
    using att(2) by (simp add: validateOcrResult_def g att(1) ml)
qed

section \<open>Properties of the store and of the confirm loops\<close>

lemma find_app: "find P (xs @ ys) = (case find P xs of Some x \<Rightarrow> Some x | None \<Rightarrow> find P ys)"
  by (induction xs) auto

lemma find_SomeD: "find P xs = Some x \<Longrightarrow> x \<in> set xs \<and> P x"
  by (induction xs) (auto split: if_splits)

lemma find_NoneD: "find P xs = None \<Longrightarrow> x \<in> set xs \<Longrightarrow> \<not> P x"
  by (induction xs) (auto split: if_splits)

lemma find_None_I: "(\<And>x. x \<in> set xs \<Longrightarrow> \<not> P x) \<Longrightarrow> find P xs = None"
  by (induction xs) auto

lemma getters_uuid_pos [simp]:
  "getEventById (w\<lparr>uuid_pos := p\<rparr>) = getEventById w"
  "getStudentById (w\<lparr>uuid_pos := p\<rparr>) = getStudentById w"
  "getStudentByName (w\<lparr>uuid_pos := p\<rparr>) = getStudentByName w"
  "getMailingListByEmail (w\<lparr>uuid_pos := p\<rparr>) = getMailingListByEmail w"
  "references_event (w\<lparr>uuid_pos := p\<rparr>) = references_event w"
  by (simp_all add: fun_eq_iff getEventById_def getStudentById_def getStudentByName_def
      getMailingListByEmail_def references_event_def split: option.splits)

lemma insertStudent_Inr:
  assumes "insertStudent w n em fe = Inr (st, w')"
  shows "st = \<lparr> s_id = uuid_seq w (uuid_pos w), s_name = n, s_email = em, s_photo_url = None,
                  s_first_event_id = fe \<rparr>
    \<and> w' = w\<lparr>uuid_pos := Suc (uuid_pos w), students := students w @ [st]\<rparr>
    \<and> getStudentById w (uuid_seq w (uuid_pos w)) = None
    \<and> references_event w fe"
  using assms
  by (auto simp: insertStudent_def generateId_def Let_def split: if_splits)

lemma insertStudent_ok:
  assumes "getStudentById w (uuid_seq w (uuid_pos w)) = None" "references_event w fe"
  shows "\<exists>st w'. insertStudent w n em fe = Inr (st, w')"
  using assms
  by (auto simp: insertStudent_def generateId_def Let_def split: if_splits)

lemma recordAttendance_Inr:
  assumes "recordAttendance w ev sid tn seat src = Inr (row, w')"
  shows "row = \<lparr> a_id = uuid_seq w (uuid_pos w), a_event_id = ev, a_student_id = sid,
                  a_table_number = tn, a_seat = seat,
                  a_source = (case src of None \<Rightarrow> ''manual'' | Some x \<Rightarrow> x) \<rparr>
    \<and> w' = w\<lparr>uuid_pos := Suc (uuid_pos w), attendance := attendance w @ [row]\<rparr>
    \<and> a_source row \<in> set [''ocr'', ''manual'', ''online'']
    \<and> \<not> list_ex (\<lambda>a. a_event_id a = ev \<and> a_student_id a = sid) (attendance w)
    \<and> getEventById w ev \<noteq> None \<and> getStudentById w sid \<noteq> None"
  using assms
  by (auto simp: recordAttendance_def generateId_def Let_def split: if_splits)

lemma recordAttendance_ok:
  assumes "seat = None \<or> seat \<in> Some ` set [''N'', ''S'', ''E'', ''W'']"
    and "(case src of None \<Rightarrow> ''manual'' | Some x \<Rightarrow> x) \<in> set [''ocr'', ''manual'', ''online'']"
    and "\<not> list_ex (\<lambda>a. a_id a = uuid_seq w (uuid_pos w)) (attendance w)"
    and "\<not> list_ex (\<lambda>a. a_event_id a = ev \<and> a_student_id a = sid) (attendance w)"
    and "getEventById w ev \<noteq> None" "getStudentById w sid \<noteq> None"
  shows "\<exists>row w'. recordAttendance w ev sid tn seat src = Inr (row, w')"
  using assms
  by (auto simp: recordAttendance_def generateId_def Let_def split: if_splits)

lemma addMailingListEntry_Inr:
  assumes "addMailingListEntry w n em ev = Inr (row, w')"
  shows "row = \<lparr> ml_id = uuid_seq w (uuid_pos w), ml_name = n, ml_email = em, ml_event_id = ev \<rparr>
    \<and> w' = w\<lparr>uuid_pos := Suc (uuid_pos w), mailing_list := mailing_list w @ [row]\<rparr>
    \<and> getMailingListByEmail w em = None"
  using assms
  by (auto simp: addMailingListEntry_def generateId_def Let_def split: if_splits)

lemma addMailingListEntry_ok:
  assumes "\<not> list_ex (\<lambda>r. ml_id r = uuid_seq w (uuid_pos w)) (mailing_list w)"
    and "getMailingListByEmail w em = None" "references_event w ev"
  shows "\<exists>row w'. addMailingListEntry w n em ev = Inr (row, w')"
  using assms
  by (auto simp: addMailingListEntry_def generateId_def Let_def split: if_splits)

text \<open>
  Each insert of \<^verbatim>\<open>queries.ts\<close> is followed by a SELECT by the new id, whose row the
  function returns; the model returns the inserted row, which is what that SELECT finds.
\<close>

lemma insertStudent_selects:
  assumes "insertStudent w n em fe = Inr (st, w')"
  shows "getStudentById w' (s_id st) = Some st"
  using insertStudent_Inr[OF assms]
  by (auto simp: getStudentById_def find_app split: option.splits)

lemma recordAttendance_selects:
  assumes "recordAttendance w ev sid tn seat src = Inr (row, w')"
  shows "find (\<lambda>a. a_id a = a_id row) (attendance w') = Some row"
proof -
  from assms have "\<not> list_ex (\<lambda>a. a_id a = uuid_seq w (uuid_pos w)) (attendance w)"
    by (auto simp: recordAttendance_def generateId_def Let_def split: if_splits)
  then have "find (\<lambda>a. a_id a = uuid_seq w (uuid_pos w)) (attendance w) = None"
    by (simp add: find_None_iff list_ex_iff)
  with recordAttendance_Inr[OF assms] show ?thesis by (auto simp: find_app)
qed

lemma addMailingListEntry_selects:
  assumes "addMailingListEntry w n em ev = Inr (row, w')"
  shows "find (\<lambda>r. ml_id r = ml_id row) (mailing_list w') = Some row"
proof -
  from assms have "\<not> list_ex (\<lambda>r. ml_id r = uuid_seq w (uuid_pos w)) (mailing_list w)"
    by (auto simp: addMailingListEntry_def generateId_def Let_def split: if_splits)
  then have "find (\<lambda>r. ml_id r = uuid_seq w (uuid_pos w)) (mailing_list w) = None"
    by (simp add: find_None_iff list_ex_iff)
  with addMailingListEntry_Inr[OF assms] show ?thesis by (auto simp: find_app)
qed

lemma insertOcrJob_selects:
  assumes "insertOcrJob w ev key = Inr (row, w')"
  shows "getOcrJobById w' (j_id row) = Some row"
proof -
  from assms have n: "\<not> list_ex (\<lambda>j. j_id j = uuid_seq w (uuid_pos w)) (ocr_jobs w)"
    and r: "j_id row = uuid_seq w (uuid_pos w)" "ocr_jobs w' = ocr_jobs w @ [row]"
    by (auto simp: insertOcrJob_def generateId_def Let_def split: if_splits)
  from n have "find (\<lambda>j. j_id j = uuid_seq w (uuid_pos w)) (ocr_jobs w) = None"
    by (simp add: find_None_iff list_ex_iff)
  with r show ?thesis by (simp add: getOcrJobById_def find_app)
qed

lemma alreadyRecorded_iff:
  "alreadyRecorded w ev st \<longleftrightarrow>
     getEventById w ev \<noteq> None \<and>
     (\<exists>a\<in>set (attendance w). a_event_id a = ev \<and> a_student_id a = s_id st
        \<and> (\<exists>s\<in>set (students w). s_id s = s_id st))"
  apply (auto simp: alreadyRecorded_def getEventWithAttendance_def list_ex_iff AttendanceRow.defs
      split: option.splits)
  apply metis
  done

lemma extends_refl: "extends w w"
  by (simp add: extends_def)

lemma extends_trans: "extends w w1 \<Longrightarrow> extends w1 w2 \<Longrightarrow> extends w w2"
  by (auto simp: extends_def)


lemma fresh_ids_unused: "fresh_ids w \<Longrightarrow> uuid_seq w (uuid_pos w) \<notin> used_ids w"
  by (simp add: fresh_ids_def)

lemma fresh_ids_step:
  assumes "fresh_ids w" "used_ids w' \<subseteq> insert (uuid_seq w (uuid_pos w)) (used_ids w)"
    and "uuid_seq w' = uuid_seq w" "uuid_pos w' = Suc (uuid_pos w)"
  shows "fresh_ids w'"
  unfolding fresh_ids_def
proof (intro allI impI conjI)
  fix i assume i: "uuid_pos w' \<le> i"
  then have ge: "uuid_pos w \<le> i" and ne: "i \<noteq> uuid_pos w" using assms(4) by auto
  from assms(1) ge have a: "uuid_seq w i \<notin> used_ids w"
    and b: "\<And>j. uuid_pos w \<le> j \<Longrightarrow> uuid_seq w i = uuid_seq w j \<Longrightarrow> i = j"
    by (auto simp: fresh_ids_def)
  have "uuid_seq w i \<noteq> uuid_seq w (uuid_pos w)" using b[of "uuid_pos w"] ne by auto
  with a assms(2,3) show "uuid_seq w' i \<notin> used_ids w'" by auto
  fix j assume "uuid_pos w' \<le> j" "uuid_seq w' i = uuid_seq w' j"
  then show "i = j" using b[of j] assms(3,4) by auto
qed

lemma fresh_no_student: "fresh_ids w \<Longrightarrow> getStudentById w (uuid_seq w (uuid_pos w)) = None"
  using fresh_ids_unused[of w]
  by (force simp: used_ids_def getStudentById_def find_None_iff image_iff)

lemma fresh_no_attendance:
  "fresh_ids w \<Longrightarrow> \<not> list_ex (\<lambda>a. a_id a = uuid_seq w (uuid_pos w)) (attendance w)"
  using fresh_ids_unused[of w]
  by (force simp: used_ids_def list_ex_iff image_iff)

lemma fresh_no_mailing:
  "fresh_ids w \<Longrightarrow> \<not> list_ex (\<lambda>r. ml_id r = uuid_seq w (uuid_pos w)) (mailing_list w)"
  using fresh_ids_unused[of w]
  by (force simp: used_ids_def list_ex_iff image_iff)

lemma getOrCreate_Inr:
  assumes "getOrCreateStudentByName w n ev = Inr (st, w')"
  shows "s_name st = n" "st \<in> set (students w')" "getStudentByName w' n = Some st"
    and "extends w w'" "attendance w' = attendance w" "mailing_list w' = mailing_list w"
    and "ocr_jobs w' = ocr_jobs w"
    and "fresh_ids w \<Longrightarrow> fresh_ids w'"
proof -
  show "s_name st = n" "st \<in> set (students w')" "getStudentByName w' n = Some st"
    and "extends w w'" "attendance w' = attendance w" "mailing_list w' = mailing_list w"
    and "ocr_jobs w' = ocr_jobs w"
    using assms
    by (auto simp: getOrCreateStudentByName_def getStudentByName_def find_app extends_def
        dest!: insertStudent_Inr dest: find_SomeD split: option.splits)
  show "fresh_ids w \<Longrightarrow> fresh_ids w'"
    using assms
    by (auto simp: getOrCreateStudentByName_def used_ids_def
        dest!: insertStudent_Inr intro!: fresh_ids_step[of w] split: option.splits)
qed

lemma getOrCreate_ok:
  assumes "getEventById w ev \<noteq> None" "fresh_ids w"
  shows "\<exists>st w'. getOrCreateStudentByName w n ev = Inr (st, w')"
proof (cases "getStudentByName w n")
  case None
  have "getStudentById w (uuid_seq w (uuid_pos w)) = None"
    using assms(2) by (rule fresh_no_student)
  then show ?thesis
    using None assms(1) insertStudent_ok[of w "Some ev" n None]
    by (simp add: getOrCreateStudentByName_def references_event_def)
next
  case (Some st)
  then show ?thesis by (simp add: getOrCreateStudentByName_def)
qed

lemma att_step_cases:
  assumes "confirm_attendance_entry w ev e = Inr (r, w')"
  obtains (blank) "r = None" "w' = w" "\<not> nonblank (ca_student_name e)"
  | (skipped) name st where "ca_student_name e = Some name" "trim name \<noteq> []"
      "getOrCreateStudentByName w (trim name) ev = Inr (st, w')" "alreadyRecorded w' ev st"
      "r = Some \<lparr> ar_student_name = name, ar_student_id = s_id st, ar_status = ''skipped'' \<rparr>"
  | (created) name st w1 row where "ca_student_name e = Some name" "trim name \<noteq> []"
      "getOrCreateStudentByName w (trim name) ev = Inr (st, w1)" "\<not> alreadyRecorded w1 ev st"
      "recordAttendance w1 ev (s_id st) (ca_table_number e) (ca_seat e) (Some ''ocr'') = Inr (row, w')"
      "r = Some \<lparr> ar_student_name = name, ar_student_id = s_id st, ar_status = ''created'' \<rparr>"
  using assms
  by (auto simp: confirm_attendance_entry_def confirm_record_def nonblank_def
      split: option.splits if_splits sum.splits prod.splits)

lemma recordAttendance_extends:
  "recordAttendance w ev sid tn seat src = Inr (row, w') \<Longrightarrow> extends w w'"
  by (auto simp: extends_def dest!: recordAttendance_Inr)


lemma att_step_extends:
  assumes "confirm_attendance_entry w ev e = Inr (r, w')"
  shows "extends w w'"
  using assms
  by (cases rule: att_step_cases)
    (auto simp: extends_refl dest: getOrCreate_Inr(4) recordAttendance_extends intro: extends_trans)






lemma att_step_ok:
  assumes "getEventById w ev \<noteq> None" "fresh_ids w" "seat_ok e"
  shows "\<exists>r w'. confirm_attendance_entry w ev e = Inr (r, w')"
proof (cases "nonblank (ca_student_name e)")
  case False
  then show ?thesis
    by (auto simp: confirm_attendance_entry_def nonblank_def split: option.splits)
next
  case True
  then obtain name where name: "ca_student_name e = Some name" "trim name \<noteq> []"
    by (auto simp: nonblank_def split: option.splits)
  from getOrCreate_ok[OF assms(1,2)] obtain st w1
    where goc: "getOrCreateStudentByName w (trim name) ev = Inr (st, w1)" by blast
  note g = getOrCreate_Inr[OF goc]
  show ?thesis
  proof (cases "alreadyRecorded w1 ev st")
    case True
    then show ?thesis using name goc by (simp add: confirm_attendance_entry_def)
  next
    case False
    have ev1: "getEventById w1 ev \<noteq> None"
      using g(4) assms(1) by (simp add: extends_def getEventById_def)
    have st1: "getStudentById w1 (s_id st) \<noteq> None"
      using g(2) by (auto simp: getStudentById_def find_None_iff)
    have nopair: "\<not> list_ex (\<lambda>a. a_event_id a = ev \<and> a_student_id a = s_id st) (attendance w1)"
      using False ev1 g(2) by (auto simp: alreadyRecorded_iff list_ex_iff)
    from recordAttendance_ok[of "ca_seat e" "Some ''ocr''" w1 ev "s_id st" "ca_table_number e"]
    obtain row w' where
      "recordAttendance w1 ev (s_id st) (ca_table_number e) (ca_seat e) (Some ''ocr'') = Inr (row, w')"
      using assms(3) fresh_no_attendance[OF g(8)[OF assms(2)]] nopair ev1 st1
      by (auto simp: seat_ok_def)
    then show ?thesis
      using name goc False by (simp add: confirm_attendance_entry_def confirm_record_def)
  qed
qed


lemma addMailingListEntry_extends:
  "addMailingListEntry w n em ev = Inr (row, w') \<Longrightarrow> extends w w'"
  by (auto simp: extends_def dest!: addMailingListEntry_Inr)









lemma for_each_invariant:
  assumes "for_each step w es = Inr (rs, w')" "I w"
    and "\<And>w e r w'. I w \<Longrightarrow> e \<in> set es \<Longrightarrow> step w e = Inr (r, w')
           \<Longrightarrow> I w' \<and> (\<forall>x. r = Some x \<longrightarrow> Q x)"
  shows "I w' \<and> (\<forall>x\<in>set rs. Q x)"
  using assms
proof (induction es arbitrary: w rs)
  case Nil
  then show ?case by simp
next
  case (Cons e es)
  from Cons.prems(1) obtain r w1 rs1 where
    s: "step w e = Inr (r, w1)" and f: "for_each step w1 es = Inr (rs1, w')"
    and rs: "rs = (case r of None \<Rightarrow> rs1 | Some x \<Rightarrow> x # rs1)"
    by (auto split: sum.splits prod.splits)
  from Cons.prems(3)[OF Cons.prems(2) _ s] have i1: "I w1" and q: "\<forall>x. r = Some x \<longrightarrow> Q x"
    by auto
  have "I w' \<and> (\<forall>x\<in>set rs1. Q x)"
  proof (rule Cons.IH[OF f i1])
    fix w0 e0 r0 w0' assume "I w0" "e0 \<in> set es" "step w0 e0 = Inr (r0, w0')"
    then show "I w0' \<and> (\<forall>x. r0 = Some x \<longrightarrow> Q x)"
      using Cons.prems(3)[of w0 e0 r0 w0'] by simp
  qed
  then show ?case using q rs by (auto split: option.splits)
qed





lemmas string_defs = trim_def white_space_def upper_sequences_def toLowerCase_def upper_char_def
  lower_char_def

lemmas store_defs = getEventById_def getStudentById_def getStudentByName_def
  getMailingListByEmail_def references_event_def generateId_def insertStudent_def
  getOrCreateStudentByName_def getEventWithAttendance_def recordAttendance_def
  addMailingListEntry_def Let_def

lemmas confirm_defs = confirm_def confirm_attendance_entry_def confirm_record_def
  alreadyRecorded_def confirm_mailing_entry_def count_status_def respond_def






lemma att_loop_extends:
  assumes "for_each (\<lambda>w. confirm_attendance_entry w ev) w att = Inr (rs, w')"
  shows "extends w w'"
proof -
  have "extends w w' \<and> (\<forall>x\<in>set rs. True)"
  proof (rule for_each_invariant[OF assms, where I="extends w" and Q="\<lambda>_. True"])
    show "extends w w" by (rule extends_refl)
  next
    fix w0 e r w0' assume "extends w w0" "confirm_attendance_entry w0 ev e = Inr (r, w0')"
    then show "extends w w0' \<and> (\<forall>x. r = Some x \<longrightarrow> True)"
      using att_step_extends extends_trans by blast
  qed
  then show ?thesis by simp
qed

















lemma example_store_ok: "store_ok ''A1B2C3D4'' example_world"
  by (simp add: store_ok_def fresh_ids_def used_ids_def unique_pairs_def example_world_def
      getEventById_def)

section \<open>Confirming twice\<close>




lemma getOrCreate_distinct:
  assumes "getOrCreateStudentByName w n ev = Inr (st, w')" "distinct (map s_id (students w))"
  shows "distinct (map s_id (students w'))"
proof (cases "getStudentByName w n")
  case None
  with assms(1) have i: "insertStudent w n None (Some ev) = Inr (st, w')"
    by (simp add: getOrCreateStudentByName_def)
  from insertStudent_Inr[OF i] have st: "s_id st = uuid_seq w (uuid_pos w)"
    and w': "students w' = students w @ [st]"
    and no: "getStudentById w (uuid_seq w (uuid_pos w)) = None" by auto
  from no have "uuid_seq w (uuid_pos w) \<notin> s_id ` set (students w)"
    by (force simp: getStudentById_def find_None_iff)
  with assms(2) st w' show ?thesis by simp
next
  case (Some a)
  with assms show ?thesis by (simp add: getOrCreateStudentByName_def)
qed

section \<open>The identity resolver\<close>

lemma ann_world_eq:
  "ann_world = example_world
     \<lparr> students := [\<lparr> s_id = ''uuid-'', s_name = ''Ann'', s_email = None, s_photo_url = None,
                       s_first_event_id = Some ''A1B2C3D4'' \<rparr>],
       attendance := [\<lparr> a_id = ''uuid-x'', a_event_id = ''A1B2C3D4'', a_student_id = ''uuid-'',
                         a_table_number = Some 1, a_seat = Some ''N'', a_source = ''ocr'' \<rparr>],
       uuid_pos := 2 \<rparr>"
  by (simp add: ann_world_def ann_body_def ann_entry_def store_after_def example_world_def
      confirm_defs store_defs string_defs AttendanceRow.defs numeral_2_eq_2)

text \<open>
  C7: for every name and originating event id, \<open>getOrCreateStudentByName\<close> looks the
  student up by exact, case-sensitive equality of the name. If the store holds a student
  with exactly that name, a stored student with exactly that name is returned and the
  store is unchanged (no student is created); if it holds none (the event exists and the
  generated identifier is fresh, so that the store accepts the insert), a new student is
  created with that name and with \<open>first_event_id\<close> the originating event, and the store
  gains that row and nothing else. Two names that differ, be it only in letter case,
  resolve to two distinct students.
\<close>

theorem getOrCreateStudentByName_exact:
  "((\<exists>s\<in>set (students w). s_name s = name) \<longrightarrow>
        (\<exists>st\<in>set (students w). s_name st = name
            \<and> getOrCreateStudentByName w name eventId = Inr (st, w)))
   \<and> ((\<forall>s\<in>set (students w). s_name s \<noteq> name) \<longrightarrow> getEventById w eventId \<noteq> None \<longrightarrow>
        fresh_ids w \<longrightarrow>
        (\<exists>st. getOrCreateStudentByName w name eventId
                 = Inr (st, w\<lparr>uuid_pos := Suc (uuid_pos w), students := students w @ [st]\<rparr>)
             \<and> s_name st = name \<and> s_first_event_id st = Some eventId
             \<and> s_id st \<notin> s_id ` set (students w)))
   \<and> (\<forall>name2 st1 w1 st2 w2.
         getOrCreateStudentByName w name eventId = Inr (st1, w1) \<longrightarrow>
         getOrCreateStudentByName w1 name2 eventId = Inr (st2, w2) \<longrightarrow>
         name \<noteq> name2 \<longrightarrow> distinct (map s_id (students w)) \<longrightarrow>
           s_id st1 \<noteq> s_id st2 \<and> st1 \<in> set (students w2) \<and> st2 \<in> set (students w2))"
proof (intro conjI allI impI)
  assume "\<exists>s\<in>set (students w). s_name s = name"
  then obtain st where f: "getStudentByName w name = Some st"
    by (cases "getStudentByName w name") (auto simp: getStudentByName_def dest: find_NoneD)
  then have "st \<in> set (students w)" "s_name st = name"
    by (auto simp: getStudentByName_def dest: find_SomeD)
  moreover from f have "getOrCreateStudentByName w name eventId = Inr (st, w)"
    by (simp add: getOrCreateStudentByName_def)
  ultimately show "\<exists>st\<in>set (students w). s_name st = name
      \<and> getOrCreateStudentByName w name eventId = Inr (st, w)" by blast
next
  assume miss: "\<forall>s\<in>set (students w). s_name s \<noteq> name"
    and ev: "getEventById w eventId \<noteq> None" and fr: "fresh_ids w"
  from miss have none: "getStudentByName w name = None"
    by (auto simp: getStudentByName_def intro: find_None_I)
  from getOrCreate_ok[OF ev fr, of name] obtain st w' where
    g: "getOrCreateStudentByName w name eventId = Inr (st, w')" by blast
  with none have i: "insertStudent w name None (Some eventId) = Inr (st, w')"
    by (simp add: getOrCreateStudentByName_def)
  from insertStudent_Inr[OF i] fresh_ids_unused[OF fr] g
  show "\<exists>st. getOrCreateStudentByName w name eventId
                 = Inr (st, w\<lparr>uuid_pos := Suc (uuid_pos w), students := students w @ [st]\<rparr>)
             \<and> s_name st = name \<and> s_first_event_id st = Some eventId
             \<and> s_id st \<notin> s_id ` set (students w)"
    by (auto simp: used_ids_def)
next
  fix name2 st1 w1 st2 w2
  assume g1: "getOrCreateStudentByName w name eventId = Inr (st1, w1)"
    and g2: "getOrCreateStudentByName w1 name2 eventId = Inr (st2, w2)"
    and ne: "name \<noteq> name2" and d: "distinct (map s_id (students w))"
  note a = getOrCreate_Inr[OF g1] and b = getOrCreate_Inr[OF g2]
  have d1: "distinct (map s_id (students w1))" by (rule getOrCreate_distinct[OF g1 d])
  have d2: "distinct (map s_id (students w2))" by (rule getOrCreate_distinct[OF g2 d1])
  from b(4) obtain ys where ys: "students w2 = students w1 @ ys" by (auto simp: extends_def)
  show in1: "st1 \<in> set (students w2)" using a(2) ys by simp
  show in2: "st2 \<in> set (students w2)" by (rule b(2))
  have "st1 \<noteq> st2" using a(1) b(1) ne by auto
  with d2 in1 in2 show "s_id st1 \<noteq> s_id st2"
    by (meson distinct_map inj_onD)
qed

text \<open>
  In the store that holds the student Ann, resolving \<open>Ann\<close> returns that student and
  leaves the store as it is; resolving \<open>ann\<close> creates a second student, whose
  identifier differs from Ann's.
\<close>

theorem getOrCreateStudentByName_exact_witness:
  "(\<exists>st. st \<in> set (students ann_world) \<and> s_name st = ''Ann'' \<and> s_id st = ''uuid-''
        \<and> getOrCreateStudentByName ann_world ''Ann'' ''A1B2C3D4'' = Inr (st, ann_world))
   \<and> (\<exists>st. getOrCreateStudentByName ann_world ''ann'' ''A1B2C3D4''
               = Inr (st, ann_world\<lparr>uuid_pos := Suc (uuid_pos ann_world),
                                     students := students ann_world @ [st]\<rparr>)
          \<and> s_name st = ''ann'' \<and> s_first_event_id st = Some ''A1B2C3D4''
          \<and> s_id st \<noteq> ''uuid-'')
   \<and> (\<exists>st1 w1 st2 w2.
          getOrCreateStudentByName ann_world ''Ann'' ''A1B2C3D4'' = Inr (st1, w1)
        \<and> getOrCreateStudentByName w1 ''ann'' ''A1B2C3D4'' = Inr (st2, w2)
        \<and> s_id st1 \<noteq> s_id st2 \<and> st1 \<in> set (students w2) \<and> st2 \<in> set (students w2))"
proof -
  have st: "students ann_world
      = [\<lparr> s_id = ''uuid-'', s_name = ''Ann'', s_email = None, s_photo_url = None,
            s_first_event_id = Some ''A1B2C3D4'' \<rparr>]"
    and ev: "getEventById ann_world ''A1B2C3D4'' \<noteq> None"
    by (simp_all add: ann_world_eq example_world_def getEventById_def)
  have hit: "\<exists>s\<in>set (students ann_world). s_name s = ''Ann''"
    and miss: "\<forall>s\<in>set (students ann_world). s_name s \<noteq> ''ann''"
    and d: "distinct (map s_id (students ann_world))"
    by (simp_all add: st)
  have fr: "fresh_ids ann_world"
    by (auto simp add: ann_world_eq fresh_ids_def used_ids_def example_world_def
        Cons_replicate_eq dest: sym)
  note t1 = getOrCreateStudentByName_exact[of ann_world "''Ann''" "''A1B2C3D4''"]
  note t2 = getOrCreateStudentByName_exact[of ann_world "''ann''" "''A1B2C3D4''"]
  from t1 hit obtain st1 where
    g1: "getOrCreateStudentByName ann_world ''Ann'' ''A1B2C3D4'' = Inr (st1, ann_world)"
    and s1: "st1 \<in> set (students ann_world)" "s_name st1 = ''Ann''" by blast
  from s1 have i1: "s_id st1 = ''uuid-''" by (simp add: st)
  from t2 miss ev fr obtain st2 where
    g2: "getOrCreateStudentByName ann_world ''ann'' ''A1B2C3D4''
           = Inr (st2, ann_world\<lparr>uuid_pos := Suc (uuid_pos ann_world),
                                  students := students ann_world @ [st2]\<rparr>)"
    and s2: "s_name st2 = ''ann''" "s_first_event_id st2 = Some ''A1B2C3D4''"
      "s_id st2 \<notin> s_id ` set (students ann_world)" by blast
  from s2(3) have i2: "s_id st2 \<noteq> ''uuid-''" by (simp add: st)
  from t1 g1 g2 d have
    "s_id st1 \<noteq> s_id st2 \<and> st1 \<in> set (students (ann_world\<lparr>uuid_pos := Suc (uuid_pos ann_world),
          students := students ann_world @ [st2]\<rparr>))
      \<and> st2 \<in> set (students (ann_world\<lparr>uuid_pos := Suc (uuid_pos ann_world),
          students := students ann_world @ [st2]\<rparr>))"
    by blast
  with g1 g2 s1 s2 i1 i2 show ?thesis by blast
qed

section \<open>The source tag of confirmed attendance\<close>

text \<open>
  C4, as stated: the row that confirm inserts carries the source tag \<open>extracted\<close>, and the
  tags of the attendance table are \<open>extracted\<close>, \<open>manual\<close>, \<open>remote\<close>. The row that confirm
  inserts for Ann carries \<open>ocr\<close>, and the table's CHECK constraint rejects a row tagged
  \<open>extracted\<close>.
\<close>

theorem confirm_source_counterexample:
  "map a_source (attendance (store_after example_world
        (confirm example_world ''A1B2C3D4'' ann_body))) = [''ocr'']
   \<and> recordAttendance ann_world ''A1B2C3D4'' ''uuid-'' None None (Some ''extracted'')
       = Inl (SqliteError CHECK '': attendance'')"
  by (simp add: ann_world_eq ann_world_def[symmetric])
    (simp add: example_world_def store_defs)

text \<open>
  C4, amended: for every confirm-path attendance entry with a non-empty trimmed name
  whose (event, student) pair has no attendance row yet (the seat being valid, so that
  the store accepts the insert), the turn of the loop inserts exactly one attendance
  row, for that event and student, and the row carries the source tag \<open>ocr\<close>; the source
  tags the attendance table admits are \<open>ocr\<close>, \<open>manual\<close> and \<open>online\<close>.
\<close>

theorem confirm_inserts_ocr:
  "(store_ok ev w \<longrightarrow> seat_ok e \<longrightarrow> ca_student_name e = Some name \<longrightarrow> trim name \<noteq> [] \<longrightarrow>
      \<not> recorded w ev (trim name) \<longrightarrow>
      (\<exists>sid w' row. confirm_attendance_entry w ev e =
            Inr (Some \<lparr> ar_student_name = name, ar_student_id = sid, ar_status = ''created'' \<rparr>, w')
          \<and> attendance w' = attendance w @ [row]
          \<and> a_event_id row = ev \<and> a_student_id row = sid \<and> a_source row = ''ocr''))
   \<and> (\<forall>row0 w0'. recordAttendance w0 ev0 sid0 tn seat src = Inr (row0, w0') \<longrightarrow>
          a_source row0 \<in> {''ocr'', ''manual'', ''online''})"
proof (intro conjI allI impI)
  fix row0 w0' assume "recordAttendance w0 ev0 sid0 tn seat src = Inr (row0, w0')"
  then have "a_source row0 \<in> set [''ocr'', ''manual'', ''online'']"
    using recordAttendance_Inr by blast
  then show "a_source row0 \<in> {''ocr'', ''manual'', ''online''}" by simp
next
  assume ok: "store_ok ev w" and seat: "seat_ok e" and nm: "ca_student_name e = Some name"
    and ne: "trim name \<noteq> []" and nr: "\<not> recorded w ev (trim name)"
  from ok have ev: "getEventById w ev \<noteq> None" and fr: "fresh_ids w" by (auto simp: store_ok_def)
  from att_step_ok[OF ev fr seat] obtain r w' where
    s: "confirm_attendance_entry w ev e = Inr (r, w')" by blast
  then show "\<exists>sid w' row. confirm_attendance_entry w ev e =
            Inr (Some \<lparr> ar_student_name = name, ar_student_id = sid, ar_status = ''created'' \<rparr>, w')
          \<and> attendance w' = attendance w @ [row]
          \<and> a_event_id row = ev \<and> a_student_id row = sid \<and> a_source row = ''ocr''"
  proof (cases rule: att_step_cases)
    case blank
    then show ?thesis using nm ne by (simp add: nonblank_def)
  next
    case (skipped name' st)
    show ?thesis
    proof (cases "getStudentByName w (trim name)")
      case None
      with skipped(3) nm skipped(1) have i: "insertStudent w (trim name) None (Some ev) = Inr (st, w')"
        by (simp add: getOrCreateStudentByName_def)
      from insertStudent_Inr[OF i] have id: "s_id st = uuid_seq w (uuid_pos w)"
        and att: "attendance w' = attendance w" by auto
      from skipped(4) obtain a where "a \<in> set (attendance w')" "a_student_id a = s_id st"
        by (auto simp: alreadyRecorded_iff)
      with att id have "uuid_seq w (uuid_pos w) \<in> used_ids w" by (force simp: used_ids_def)
      with fresh_ids_unused[OF fr] show ?thesis by simp
    next
      case (Some st0)
      with skipped nm have "st0 = st" "w' = w" by (auto simp: getOrCreateStudentByName_def)
      with skipped(4) Some nr show ?thesis by (simp add: recorded_def)
    qed
  next
    case (created name' st w1 row)
    from recordAttendance_Inr[OF created(5)] getOrCreate_Inr(5)[OF created(3)] s created(1,6) nm
    show ?thesis by auto
  qed
qed

theorem confirm_inserts_ocr_witness:
  "\<exists>sid w' row. confirm_attendance_entry example_world ''A1B2C3D4'' ann_entry =
        Inr (Some \<lparr> ar_student_name = ''Ann'', ar_student_id = sid, ar_status = ''created'' \<rparr>, w')
      \<and> attendance w' = attendance example_world @ [row]
      \<and> a_event_id row = ''A1B2C3D4'' \<and> a_student_id row = sid \<and> a_source row = ''ocr''"
proof -
  have "seat_ok ann_entry" "ca_student_name ann_entry = Some ''Ann''" "trim ''Ann'' \<noteq> []"
    "\<not> recorded example_world ''A1B2C3D4'' (trim ''Ann'')"
    by (simp_all add: ann_entry_def seat_ok_def string_defs recorded_def getStudentByName_def
        example_world_def)
  with example_store_ok
    confirm_inserts_ocr[of "''A1B2C3D4''" example_world ann_entry "''Ann''"]
  show ?thesis by blast
qed

section \<open>A uniqueness rejection inside confirm\<close>

lemma confirm_entry_not_interleaved:
  "confirm_attendance_entry_interleaved (\<lambda>w. w) w ev e = confirm_attendance_entry w ev e"
  by (simp add: confirm_attendance_entry_interleaved_def confirm_attendance_entry_def)

lemma confirm_record_propagates:
  "recordAttendance w ev (s_id st) (ca_table_number e) (ca_seat e) (Some ''ocr'') = Inl err
     \<Longrightarrow> confirm_record w ev e name st = Inl err"
  by (simp add: confirm_record_def)

lemma unique_message: "str_includes (message (SqliteError UNIQUE detail)) ''UNIQUE constraint''"
  by simp

lemma post_attendance_conflict:
  assumes "rb_student_name body = Some name" "name \<noteq> []"
    and "rb_seat body = None \<or> rb_seat body \<in> Some ` set [''N'', ''S'', ''E'', ''W'']"
    and "getEventById w ev \<noteq> None"
    and "getOrCreateStudentByName w name ev = Inr (st, w1)"
    and "recordAttendance w1 ev (s_id st) (rb_table_number body) (rb_seat body)
           (Some (case rb_source body of None \<Rightarrow> ''manual'' | Some src \<Rightarrow> src))
         = Inl (SqliteError UNIQUE detail)"
  shows "respond (post_attendance w ev body)
     = ErrorJson 409 ''CONFLICT'' (name @ '' is already recorded for this event'')"
  using assms
  by (auto simp: post_attendance_def respond_def conflict_def split: option.splits)

text \<open>
  C3: inside confirm, a rejection of the attendance insert by the uniqueness constraint
  on (event_id, student_id) is reported as \<open>skipped\<close> and no error reaches the caller.
  The source has no \<^verbatim>\<open>try\<close> around the insert in confirm. Two requests confirm Ann for
  the same event; the first has made its existence check (no row yet) when the second
  runs to completion and inserts the row; the first then inserts, the store rejects
  the insert, and the exception leaves the handler: the first request is answered with
  status 500. The direct endpoint, on the store that holds the row, answers 409.
\<close>

theorem confirm_unique_rejection_surfaces:
  "confirm_attendance_entry_interleaved
       (\<lambda>w. store_after w (confirm w ''A1B2C3D4'' ann_body)) example_world ''A1B2C3D4'' ann_entry
     = Inl (SqliteError UNIQUE '': attendance.event_id, attendance.student_id'')
   \<and> (onError (SqliteError UNIQUE '': attendance.event_id, attendance.student_id'')
        :: ConfirmData response)
     = ErrorJson 500 ''INTERNAL_ERROR'' ''An unexpected error occurred''
   \<and> respond (post_attendance ann_world ''A1B2C3D4''
        \<lparr> rb_student_name = Some ''Ann'', rb_table_number = None, rb_seat = None,
          rb_source = None \<rparr>)
     = ErrorJson 409 ''CONFLICT'' ''Ann is already recorded for this event''"
  apply (intro conjI)
    apply (simp add: confirm_attendance_entry_interleaved_def ann_entry_def ann_body_def
      store_after_def example_world_def confirm_defs store_defs string_defs AttendanceRow.defs)
   apply simp
  apply (simp add: ann_world_eq)
  apply (simp add: post_attendance_def example_world_def store_defs respond_def conflict_def)
  done

section \<open>The mailing list on the confirm path\<close>






section \<open>The mailing list on the direct endpoint\<close>

text \<open>
  C10: POST /api/mailing-list stores the email exactly as supplied, neither trimmed nor
  lower-cased, and its duplicate check compares the raw string: whenever no row has
  exactly the supplied email (and the store accepts the insert) the request succeeds with
  201 and appends a row with the name and email as supplied. So \<open>x@y.com\<close> followed by
  \<open>X@Y.COM\<close> leaves two rows whose normalized emails are equal, where the confirm path,
  given the same two entries, leaves one.
\<close>

theorem post_mailing_list_stores_raw_email:
  "(\<forall>name email. mb_name body = Some name \<longrightarrow> mb_email body = Some email \<longrightarrow> name \<noteq> [] \<longrightarrow>
       email \<noteq> [] \<longrightarrow> getMailingListByEmail w email = None \<longrightarrow>
       references_event w (mb_event_id body) \<longrightarrow> fresh_ids w \<longrightarrow>
       post_mailing_list w body =
         Inr (Json 201 \<lparr> ml_id = uuid_seq w (uuid_pos w), ml_name = name, ml_email = email,
                         ml_event_id = mb_event_id body \<rparr>,
              w\<lparr>uuid_pos := Suc (uuid_pos w),
                mailing_list := mailing_list w @
                  [\<lparr> ml_id = uuid_seq w (uuid_pos w), ml_name = name, ml_email = email,
                     ml_event_id = mb_event_id body \<rparr>]\<rparr>))
   \<and> toLowerCase (trim ''x@y.com'') = toLowerCase (trim ''X@Y.COM'')
   \<and> map ml_email (mailing_list
        (store_after example_world (post_mailing_list
           (store_after example_world (post_mailing_list example_world
              \<lparr> mb_name = Some ''A'', mb_email = Some ''x@y.com'', mb_event_id = None \<rparr>))
           \<lparr> mb_name = Some ''A2'', mb_email = Some ''X@Y.COM'', mb_event_id = None \<rparr>)))
     = [''x@y.com'', ''X@Y.COM'']
   \<and> map ml_email (mailing_list
        (store_after example_world (confirm example_world ''A1B2C3D4''
           \<lparr> cb_attendance = Some [],
             cb_mailing_list = Some [\<lparr> cm_name = Some ''A'', cm_email = Some ''x@y.com'' \<rparr>,
                                     \<lparr> cm_name = Some ''A2'', cm_email = Some ''X@Y.COM'' \<rparr>] \<rparr>)))
     = [''x@y.com'']"
proof (intro conjI allI impI)
  fix name email
  assume a: "mb_name body = Some name" "mb_email body = Some email" "name \<noteq> []" "email \<noteq> []"
    "getMailingListByEmail w email = None" "references_event w (mb_event_id body)" "fresh_ids w"
  from addMailingListEntry_ok[OF fresh_no_mailing[OF a(7)] a(5,6), of name]
  obtain row w' where r: "addMailingListEntry w name email (mb_event_id body) = Inr (row, w')"
    by blast
  from addMailingListEntry_Inr[OF r] r a
  show "post_mailing_list w body =
         Inr (Json 201 \<lparr> ml_id = uuid_seq w (uuid_pos w), ml_name = name, ml_email = email,
                         ml_event_id = mb_event_id body \<rparr>,
              w\<lparr>uuid_pos := Suc (uuid_pos w),
                mailing_list := mailing_list w @
                  [\<lparr> ml_id = uuid_seq w (uuid_pos w), ml_name = name, ml_email = email,
                     ml_event_id = mb_event_id body \<rparr>]\<rparr>)"
    by (simp add: post_mailing_list_def)
qed (simp_all add: string_defs example_world_def post_mailing_list_def store_after_def
    confirm_defs store_defs)

theorem post_mailing_list_stores_raw_email_witness:
  "post_mailing_list listed_world
      \<lparr> mb_name = Some ''A2'', mb_email = Some ''X@Y.COM'', mb_event_id = None \<rparr>
   = Inr (Json 201 \<lparr> ml_id = ''uuid-'', ml_name = ''A2'', ml_email = ''X@Y.COM'',
                     ml_event_id = None \<rparr>,
          listed_world\<lparr>uuid_pos := 1,
            mailing_list := mailing_list listed_world @
              [\<lparr> ml_id = ''uuid-'', ml_name = ''A2'', ml_email = ''X@Y.COM'', ml_event_id = None \<rparr>]\<rparr>)"
proof -
  have "getMailingListByEmail listed_world ''X@Y.COM'' = None"
    "references_event listed_world None" "fresh_ids listed_world"
    by (simp_all add: listed_world_def example_world_def getMailingListByEmail_def
        references_event_def fresh_ids_def used_ids_def)
  with post_mailing_list_stores_raw_email[of
      "\<lparr> mb_name = Some ''A2'', mb_email = Some ''X@Y.COM'', mb_event_id = None \<rparr>" listed_world]
  show ?thesis by (simp add: listed_world_def example_world_def)
qed

section \<open>A failed extraction\<close>

lemma fresh_ids_next: "fresh_ids w \<Longrightarrow> uuid_seq w (Suc (uuid_pos w)) \<notin> used_ids w"
  by (simp add: fresh_ids_def)

lemma find_append_last:
  assumes "\<forall>x\<in>set xs. \<not> P x" "P y"
  shows "find P (xs @ [y]) = Some y"
  using assms by (induction xs) auto

lemma update_job_noop:
  assumes "\<forall>j\<in>set jobs. j_id j \<noteq> ident"
  shows "map (\<lambda>j. if j_id j = ident then f j else j) jobs = jobs"
  using assms by (induction jobs) auto

text \<open>
  C8: for every photo upload that passes the handler's checks (the event exists, the key
  is configured, the file has an allowed type and size; the generated identifiers are
  fresh) and whose extraction step throws, be it the collaborator's error, an unparsable
  reply or a throw of the normalizer, the scan operation answers with status 200 and a
  body carrying the job id, the blob key, status \<open>failed\<close> and the error message; the
  job is stored with status \<open>failed\<close> and that message; and the blob is in the bucket
  under the key.
\<close>

theorem scan_extraction_failure:
  assumes ev: "getEventById w eventId \<noteq> None" and key: "apiKey \<noteq> []"
    and ty: "f_type file \<in> set ALLOWED_TYPES" and sz: "length (f_bytes file) \<le> MAX_SIZE"
    and fr: "fresh_ids w"
    and throws: "processAttendanceSheet reply = Inl err"
  shows "\<exists>job r2Key w'.
      scan w apiKey eventId (Some file) timestamp now reply =
        Inr (Json 200 \<lparr> sd_ocr_job_id = job, sd_r2_key = r2Key, sd_status = ''failed'',
                        sd_result = None,
                        sd_error = Some (if instanceof_Error err then message err
                                         else ''Unknown OCR error'') \<rparr>, w')
    \<and> getOcrJobById w' job =
        Some \<lparr> j_id = job, j_event_id = eventId, j_r2_key = r2Key, j_status = ''failed'',
               j_result_json = None,
               j_error_message = Some (if instanceof_Error err then message err
                                       else ''Unknown OCR error''),
               j_processed_at = Some now \<rparr>
    \<and> PHOTOS w' r2Key = Some \<lparr> r2_body = f_bytes file, r2_contentType = f_type file \<rparr>"
proof -
  define job where "job = uuid_seq w (Suc (uuid_pos w))"
  have nojob: "\<forall>j\<in>set (ocr_jobs w). j_id j \<noteq> job"
    using fresh_ids_next[OF fr] by (force simp: used_ids_def job_def)
  then have nolist: "\<not> list_ex (\<lambda>j. j_id j = job) (ocr_jobs w)" by (simp add: list_ex_iff)
  from ev obtain event where e: "getEventById w eventId = Some event" by auto
  show ?thesis
    using e key ty sz throws nolist nojob
    by (auto simp: scan_def insertOcrJob_def generateId_def Let_def getEventById_def
        updateOcrJobProcessing_def updateOcrJobFailed_def getOcrJobById_def job_def
        find_append_last update_job_noop list_ex_iff)
qed

theorem scan_extraction_failure_witness:
  "\<exists>job r2Key w'.
      scan example_world ''sk-test'' ''A1B2C3D4'' (Some jpeg_photo) ''1772500000''
          ''2026-03-03T10:00:00Z'' (TextBlock ''not json'' None) =
        Inr (Json 200 \<lparr> sd_ocr_job_id = job, sd_r2_key = r2Key, sd_status = ''failed'',
                        sd_result = None,
                        sd_error = Some ''Failed to parse OCR result as JSON. Raw response: not json'' \<rparr>, w')
    \<and> map j_status (ocr_jobs w') = [''failed'']
    \<and> PHOTOS w' r2Key = Some \<lparr> r2_body = ''JFIF'', r2_contentType = ''image/jpeg'' \<rparr>"
proof -
  have a: "getEventById example_world ''A1B2C3D4'' \<noteq> None" "''sk-test'' \<noteq> []"
    "f_type jpeg_photo \<in> set ALLOWED_TYPES" "length (f_bytes jpeg_photo) \<le> MAX_SIZE"
    by (simp_all add: example_world_def getEventById_def jpeg_photo_def ALLOWED_TYPES_def
        MAX_SIZE_def)
  have fr: "fresh_ids example_world" using example_store_ok by (simp add: store_ok_def)
  have t: "processAttendanceSheet (TextBlock ''not json'' None)
      = Inl (Error ''Failed to parse OCR result as JSON. Raw response: not json'')"
    by (simp add: processAttendanceSheet_def string_defs)
  from scan_extraction_failure[OF a fr t, of "''1772500000''" "''2026-03-03T10:00:00Z''"]
  obtain job r2Key w' where
    s: "scan example_world ''sk-test'' ''A1B2C3D4'' (Some jpeg_photo) ''1772500000''
          ''2026-03-03T10:00:00Z'' (TextBlock ''not json'' None) =
        Inr (Json 200 \<lparr> sd_ocr_job_id = job, sd_r2_key = r2Key, sd_status = ''failed'',
                        sd_result = None,
                        sd_error = Some ''Failed to parse OCR result as JSON. Raw response: not json'' \<rparr>, w')"
    and p: "PHOTOS w' r2Key = Some \<lparr> r2_body = f_bytes jpeg_photo, r2_contentType = f_type jpeg_photo \<rparr>"
    by auto
  have "map j_status (ocr_jobs w') = [''failed'']"
    using s
    by (auto simp: scan_def insertOcrJob_def generateId_def Let_def getEventById_def
        updateOcrJobProcessing_def updateOcrJobFailed_def example_world_def jpeg_photo_def
        ALLOWED_TYPES_def MAX_SIZE_def processAttendanceSheet_def string_defs)
  with s p show ?thesis by (auto simp: jpeg_photo_def)
qed

section \<open>The roster cross-reference\<close>

text \<open>
  The join of the roster, modelled from the specification, pairs students and members as
  \<^verbatim>\<open>findNonMembers\<close> of the source does: a student has no matching member exactly when
  \<^verbatim>\<open>findNonMembers\<close> lists the student.
\<close>

lemma findNonMembers_matching:
  assumes "s \<in> set (students w)"
  shows "((s_id s, s_name s) \<in> set (findNonMembers w [s_id s])) = (matching_member w s = None)"
proof
  assume "(s_id s, s_name s) \<in> set (findNonMembers w [s_id s])"
  then show "matching_member w s = None"
    by (auto simp: findNonMembers_def matching_member_def find_None_iff list_ex_iff)
next
  assume "matching_member w s = None"
  then have "\<not> list_ex (\<lambda>m. toLowerCase (s_name s) = toLowerCase (m_name m)) (members w)"
    by (auto simp: matching_member_def find_None_iff list_ex_iff)
  with assms have "s \<in> set (filter (\<lambda>s'. s_id s' \<in> set [s_id s]
        \<and> \<not> list_ex (\<lambda>m. toLowerCase (s_name s') = toLowerCase (m_name m)) (members w))
      (students w))" by simp
  then have "(\<lambda>s. (s_id s, s_name s)) s \<in> set (findNonMembers w [s_id s])"
    unfolding findNonMembers_def by (simp only: list.simps if_False set_map) (rule imageI)
  then show "(s_id s, s_name s) \<in> set (findNonMembers w [s_id s])" by simp
qed

text \<open>
  C9: for every event, the roster handler returns each student who has an attendance
  row at any event with the same name as the given one, once (distinct student ids when
  the student ids are distinct), joined against the members by exact name match up to
  letter case; \<open>needs_mailing_list\<close> is true exactly when there is no matching member
  and declined is false. So Alice Johnson, with a member named alice johnson, does not
  need a signup, and once that member row is deleted she does. Bob, who attended only
  the other occurrence of the class, is on the roster of this one.
\<close>

theorem roster_cross_reference:
  "(\<forall>event. getEventById w ident = Some event \<longrightarrow>
      (\<exists>d. get_roster w ident = Inr (Json 200 d, w)
         \<and> map rs_student_id (rd_students d)
             = map s_id (filter (attended_class w (e_name event)) (students w))
         \<and> (distinct (map s_id (students w)) \<longrightarrow> distinct (map rs_student_id (rd_students d)))
         \<and> (\<forall>r\<in>set (rd_students d).
               rs_needs_mailing_list r = (\<not> rs_is_member r \<and> \<not> rs_declined r))
         \<and> (\<forall>s\<in>set (students w). attended_class w (e_name event) s \<longrightarrow>
               (\<exists>r\<in>set (rd_students d). rs_student_id r = s_id s \<and> rs_name r = s_name s
                  \<and> rs_is_member r
                      = (\<exists>m\<in>set (members w). toLowerCase (m_name m) = toLowerCase (s_name s))))))
   \<and> map (\<lambda>r. (rs_name r, rs_is_member r, rs_needs_mailing_list r))
        (case get_roster class_world ''A1B2C3D4'' of
           Inr (Json status d, w') \<Rightarrow> rd_students d | _ \<Rightarrow> [])
      = [(''Alice Johnson'', True, False), (''Bob Lee'', False, True)]
   \<and> map (\<lambda>r. (rs_name r, rs_is_member r, rs_needs_mailing_list r))
        (case get_roster (snd (deleteMember class_world ''m1'')) ''A1B2C3D4'' of
           Inr (Json status d, w') \<Rightarrow> rd_students d | _ \<Rightarrow> [])
      = [(''Alice Johnson'', False, True), (''Bob Lee'', False, True)]"
proof (intro conjI allI impI)
  fix event assume e: "getEventById w ident = Some event"
  let ?d = "\<lparr> rd_class_name = e_name event, rd_teacher = e_teacher event,
      rd_total_students = length (getRosterForClass w (e_name event)),
      rd_needs_mailing_list = length (filter rs_needs_mailing_list
         (map (\<lambda>r. \<lparr> rs_student_id = rr_student_id r, rs_name = rr_student_name r,
                      rs_is_member = (rr_is_member r = 1), rs_declined = (rr_declined r = 1),
                      rs_needs_mailing_list = (rr_is_member r = 0 \<and> rr_declined r = 0) \<rparr>)
              (getRosterForClass w (e_name event)))),
      rd_students = map (\<lambda>r. \<lparr> rs_student_id = rr_student_id r, rs_name = rr_student_name r,
                      rs_is_member = (rr_is_member r = 1), rs_declined = (rr_declined r = 1),
                      rs_needs_mailing_list = (rr_is_member r = 0 \<and> rr_declined r = 0) \<rparr>)
              (getRosterForClass w (e_name event)) \<rparr>"
  have g: "get_roster w ident = Inr (Json 200 ?d, w)"
    using e by (simp add: get_roster_def Let_def)
  have ids: "map rs_student_id (rd_students ?d)
             = map s_id (filter (attended_class w (e_name event)) (students w))"
    by (simp add: getRosterForClass_def comp_def)
  have dist: "distinct (map s_id (students w)) \<longrightarrow> distinct (map rs_student_id (rd_students ?d))"
    unfolding ids by (simp add: distinct_map_filter)
  have needs: "\<forall>r\<in>set (rd_students ?d).
               rs_needs_mailing_list r = (\<not> rs_is_member r \<and> \<not> rs_declined r)"
    by (auto simp: getRosterForClass_def split: option.splits)
  have mem: "\<forall>s\<in>set (students w). attended_class w (e_name event) s \<longrightarrow>
               (\<exists>r\<in>set (rd_students ?d). rs_student_id r = s_id s \<and> rs_name r = s_name s
                  \<and> rs_is_member r
                      = (\<exists>m\<in>set (members w). toLowerCase (m_name m) = toLowerCase (s_name s)))"
  proof (intro ballI impI)
    fix s assume s: "s \<in> set (students w)" "attended_class w (e_name event) s"
    have m: "(matching_member w s \<noteq> None)
       = (\<exists>m\<in>set (members w). toLowerCase (m_name m) = toLowerCase (s_name s))"
      by (auto simp: matching_member_def find_None_iff)
    let ?r = "\<lparr> rs_student_id = s_id s, rs_name = s_name s,
        rs_is_member = (matching_member w s \<noteq> None),
        rs_declined = ((case matching_member w s of None \<Rightarrow> 0 | Some m \<Rightarrow> m_declined m) = 1),
        rs_needs_mailing_list = (matching_member w s = None) \<rparr>"
    have "?r \<in> set (rd_students ?d)"
      using s by (force simp: getRosterForClass_def image_iff split: option.splits)
    then show "\<exists>r\<in>set (rd_students ?d). rs_student_id r = s_id s \<and> rs_name r = s_name s
                  \<and> rs_is_member r
                      = (\<exists>m\<in>set (members w). toLowerCase (m_name m) = toLowerCase (s_name s))"
      using m by (intro bexI[of _ ?r]) simp_all
  qed
  show "\<exists>d. get_roster w ident = Inr (Json 200 d, w)
         \<and> map rs_student_id (rd_students d)
             = map s_id (filter (attended_class w (e_name event)) (students w))
         \<and> (distinct (map s_id (students w)) \<longrightarrow> distinct (map rs_student_id (rd_students d)))
         \<and> (\<forall>r\<in>set (rd_students d).
               rs_needs_mailing_list r = (\<not> rs_is_member r \<and> \<not> rs_declined r))
         \<and> (\<forall>s\<in>set (students w). attended_class w (e_name event) s \<longrightarrow>
               (\<exists>r\<in>set (rd_students d). rs_student_id r = s_id s \<and> rs_name r = s_name s
                  \<and> rs_is_member r
                      = (\<exists>m\<in>set (members w). toLowerCase (m_name m) = toLowerCase (s_name s))))"
    using g ids dist needs mem by blast
qed (simp_all add: class_world_def get_roster_def getRosterForClass_def getEventById_def
    attended_class_def matching_member_def deleteMember_def string_defs Let_def)

theorem roster_cross_reference_witness:
  "\<exists>d. get_roster class_world ''A1B2C3D4'' = Inr (Json 200 d, class_world)
      \<and> map rs_student_id (rd_students d) = [''s1'', ''s2'']
      \<and> distinct (map rs_student_id (rd_students d))
      \<and> list_all (\<lambda>r. rs_needs_mailing_list r = (\<not> rs_is_member r \<and> \<not> rs_declined r))
           (rd_students d)"
proof -
  have e: "getEventById class_world ''A1B2C3D4'' = Some (hd (events class_world))"
    by (simp add: class_world_def getEventById_def)
  have n: "e_name (hd (events class_world)) = ''Tuesday Beginner''"
    by (simp add: class_world_def)
  have f: "map s_id (filter (attended_class class_world ''Tuesday Beginner'') (students class_world))
      = [''s1'', ''s2'']"
    by (simp add: class_world_def attended_class_def)
  have d: "distinct (map s_id (students class_world))" by (simp add: class_world_def)
  from roster_cross_reference[of class_world "''A1B2C3D4''"] e
  obtain d0 where "get_roster class_world ''A1B2C3D4'' = Inr (Json 200 d0, class_world)"
    "map rs_student_id (rd_students d0)
       = map s_id (filter (attended_class class_world (e_name (hd (events class_world))))
                     (students class_world))"
    "distinct (map s_id (students class_world)) \<longrightarrow> distinct (map rs_student_id (rd_students d0))"
    "\<forall>r\<in>set (rd_students d0). rs_needs_mailing_list r = (\<not> rs_is_member r \<and> \<not> rs_declined r)"
    by blast
  with n f d show ?thesis by (auto simp: list_all_iff)
qed

end
